theory Spec2Isabelle
  imports Complex_Main "HOL-Library.Word" "HOL-Library.Log_Nat"
begin

section \<open>Observation and reward hooks of the coverage grid-world (custom.py)\<close>

text \<open>
  The module \<^verbatim>\<open>Code/coverage-gridworld/coverage_gridworld/custom.py\<close> is embedded
  function by function. Conventions of the embedding:
  \<^item> a NumPy array of dtype uint8 and shape (rows, columns, channels) is a list of rows,
    each a list of cells, each a list of 8-bit words; a one-dimensional array is a list
    of 8-bit words;
  \<^item> the \<^verbatim>\<open>info\<close> dictionary is a record with one optional field per key the module
    reads: \<open>None\<close> is an absent key, and reading it raises \<^verbatim>\<open>KeyError\<close>. The values
    have the types the environment's hook contract gives them;
  \<^item> a raised exception is the left summand of the result;
  \<^item> the repository pins no NumPy release, and the conversion of a Python integer to
    uint8 differs between releases: the observation functions take the release as a
    parameter;
  \<^item> a Python \<^verbatim>\<open>float\<close> is an IEEE 754 binary64 number: \<^verbatim>\<open>+=\<close> and \<^verbatim>\<open>-=\<close> round their
    exact result to the nearest such number, ties to even, and a literal stands for the
    number nearest to its decimal;
  \<^item> the module's global variables are the fields of the record \<open>module_state\<close>, passed in
    and returned by the functions that declare them \<^verbatim>\<open>global\<close>.
\<close>

subsection \<open>Data\<close>

type_synonym u8 = "8 word"

type_synonym grid = "u8 list list list"

datatype py_error = KeyError string | ValueError | OverflowError

datatype enemy = Enemy (enemy_x: int) (enemy_y: int)

record step_info =
  agent_pos :: "int option"
  steps_remaining :: "int option"
  cells_remaining :: "int option"
  new_cell_covered :: "bool option"
  game_over :: "bool option"
  enemies :: "enemy list option"

record module_state =
  CURRENT_OBS_MODE :: string
  CURRENT_REWARD_MODE :: string
  LAST_AGENT_POS :: "int option"
  LAST_INFO :: "step_info option"

text \<open>The values the globals have when the module is imported.\<close>

definition initial_state :: module_state where
  "initial_state =
     \<lparr>CURRENT_OBS_MODE = ''global'', CURRENT_REWARD_MODE = ''basic'',
      LAST_AGENT_POS = None, LAST_INFO = None\<rparr>"

text \<open>\<^verbatim>\<open>info[k]\<close>: the value stored under the key, or \<^verbatim>\<open>KeyError\<close>.\<close>

definition getitem :: "string \<Rightarrow> 'a option \<Rightarrow> py_error + 'a" where
  "getitem k v = (case v of None \<Rightarrow> Inl (KeyError k) | Some a \<Rightarrow> Inr a)"

subsection \<open>Binary floating point\<close>

text \<open>
  The values of a Python \<^verbatim>\<open>float\<close>: the finite binary64 numbers, each given by the
  rational it denotes, the two infinities and not-a-number. The zero of the model is
  \<^verbatim>\<open>+0.0\<close>: in round-to-nearest a sum or difference of numbers other than \<^verbatim>\<open>-0.0\<close> is
  never \<^verbatim>\<open>-0.0\<close>, and the module starts from \<^verbatim>\<open>0.0\<close>.
\<close>

datatype double = Finite rat | PosInf | NegInf | NaN

definition pow2 :: "int \<Rightarrow> rat" where
  "pow2 e = (if 0 \<le> e then of_int (2 ^ nat e) else 1 / of_int (2 ^ nat (- e)))"

text \<open>
  For \<open>x \<noteq> 0\<close>, the exponent \<open>e\<close> with \<open>2\<^sup>e \<le> \<bar>x\<bar> < 2\<^sup>e\<^sup>+\<^sup>1\<close>: the difference of the bit
  lengths of numerator and denominator, or one less.
\<close>

definition floor_log2 :: "rat \<Rightarrow> int" where
  "floor_log2 x =
     (let a = fst (quotient_of \<bar>x\<bar>);
          b = snd (quotient_of \<bar>x\<bar>);
          k = bitlen a - bitlen b in
      if pow2 k \<le> \<bar>x\<bar> then k else k - 1)"

text \<open>The integer nearest to \<open>x\<close>, the even one of the two when \<open>x\<close> lies half way.\<close>

definition round_half_even :: "rat \<Rightarrow> int" where
  "round_half_even x =
     (let n = \<lfloor>x\<rfloor>; d = x - of_int n in
      if d < 1 / 2 then n
      else if 1 / 2 < d then n + 1
      else if even n then n else n + 1)"

text \<open>
  Rounding to binary64. A number in the binade of exponent \<open>e\<close> is rounded to a multiple
  of \<open>2\<^sup>e\<^sup>-\<^sup>5\<^sup>2\<close> (53 significant bits); below \<open>2\<^sup>-\<^sup>1\<^sup>0\<^sup>2\<^sup>2\<close> the spacing stays that of the
  subnormal numbers, \<open>2\<^sup>-\<^sup>1\<^sup>0\<^sup>7\<^sup>4\<close>. The multiple \<open>n\<close> has at most 53 bits, or is \<open>2\<^sup>5\<^sup>3\<close> when
  the rounding carries into the next binade; the result is an infinity when its exponent
  then exceeds 1023, that is when its magnitude reaches \<open>2\<^sup>1\<^sup>0\<^sup>2\<^sup>4\<close>.
\<close>

definition round_double :: "rat \<Rightarrow> double" where
  "round_double x =
     (if x = 0 then Finite 0
      else
        (let e = max (floor_log2 x) (- 1022);
             ulp = pow2 (e - 52);
             n = round_half_even (x / ulp) in
         if 1024 \<le> (if \<bar>n\<bar> = 2 ^ 53 then e + 1 else e)
         then (if 0 < x then PosInf else NegInf)
         else Finite (of_int n * ulp)))"

fun fneg :: "double \<Rightarrow> double" where
  "fneg (Finite a) = Finite (- a)"
| "fneg PosInf = NegInf"
| "fneg NegInf = PosInf"
| "fneg NaN = NaN"

text \<open>\<^verbatim>\<open>x + y\<close> and \<^verbatim>\<open>x - y\<close> on floats.\<close>

fun fadd :: "double \<Rightarrow> double \<Rightarrow> double" where
  "fadd (Finite a) (Finite b) = round_double (a + b)"
| "fadd NaN y = NaN"
| "fadd x NaN = NaN"
| "fadd PosInf NegInf = NaN"
| "fadd NegInf PosInf = NaN"
| "fadd PosInf y = PosInf"
| "fadd x PosInf = PosInf"
| "fadd NegInf y = NegInf"
| "fadd x NegInf = NegInf"

definition fsub :: "double \<Rightarrow> double \<Rightarrow> double" where
  "fsub x y = fadd x (fneg y)"

text \<open>A float literal of the source: the binary64 number nearest to the decimal.\<close>

definition float_literal :: "rat \<Rightarrow> double" where
  "float_literal q = round_double q"

subsection \<open>Reward functions\<close>

definition reward_basic :: "step_info \<Rightarrow> py_error + double" where
  "reward_basic info =
     (let rew = float_literal 0.0 in
      case getitem ''new_cell_covered'' (new_cell_covered info) of
        Inl e \<Rightarrow> Inl e
      | Inr covered \<Rightarrow>
         (let rew = (if covered then fadd rew (float_literal 1.0) else rew) in
          case getitem ''game_over'' (game_over info) of
            Inl e \<Rightarrow> Inl e
          | Inr over \<Rightarrow>
             (let rew = (if over then fsub rew (float_literal 1.0) else rew) in
              Inr rew)))"

text \<open>
  \<open>reward_time_pressure\<close> reads and writes the global \<^verbatim>\<open>LAST_AGENT_POS\<close>: the model takes
  its value and returns the new one. An exception leaves the global as it was, since the
  assignment is the last statement before \<^verbatim>\<open>return\<close>.
\<close>

definition reward_time_pressure ::
  "int option \<Rightarrow> step_info \<Rightarrow> (py_error + double) \<times> int option" where
  "reward_time_pressure last_pos info =
     (let rew = float_literal 0.0 in
      case getitem ''new_cell_covered'' (new_cell_covered info) of
        Inl e \<Rightarrow> (Inl e, last_pos)
      | Inr covered \<Rightarrow>
         (let rew = (if covered then fadd rew (float_literal 1.0) else rew);
              rew = fsub rew (float_literal 0.01) in
          case getitem ''game_over'' (game_over info) of
            Inl e \<Rightarrow> (Inl e, last_pos)
          | Inr over \<Rightarrow>
             (let rew = (if over then fsub rew (float_literal 5.0) else rew) in
              case getitem ''agent_pos'' (agent_pos info) of
                Inl e \<Rightarrow> (Inl e, last_pos)
              | Inr current_pos \<Rightarrow>
                 (let rew = (case last_pos of
                               None \<Rightarrow> rew
                             | Some p \<Rightarrow>
                                 (if current_pos = p then fsub rew (float_literal 0.05)
                                  else rew)) in
                  (Inr rew, Some current_pos)))))"

text \<open>The body of the loop over \<^verbatim>\<open>info["enemies"]\<close> in \<open>reward_proximity\<close>.\<close>

definition enemy_step :: "int \<Rightarrow> int \<Rightarrow> enemy \<Rightarrow> double \<Rightarrow> double" where
  "enemy_step agent_x agent_y en rew =
     (let ex = enemy_x en; ey = enemy_y en;
          dist = \<bar>agent_x - ex\<bar> + \<bar>agent_y - ey\<bar> in
      if dist < 3 then fsub rew (float_literal 0.1) else rew)"

fun enemy_loop :: "int \<Rightarrow> int \<Rightarrow> enemy list \<Rightarrow> double \<Rightarrow> double" where
  "enemy_loop agent_x agent_y [] rew = rew"
| "enemy_loop agent_x agent_y (en # ens) rew =
     enemy_loop agent_x agent_y ens (enemy_step agent_x agent_y en rew)"

definition reward_proximity :: "step_info \<Rightarrow> py_error + double" where
  "reward_proximity info =
     (let rew = float_literal 0.0 in
      case getitem ''new_cell_covered'' (new_cell_covered info) of
        Inl e \<Rightarrow> Inl e
      | Inr covered \<Rightarrow>
         (let rew = (if covered then fadd rew (float_literal 1.0) else rew);
              rew = fsub rew (float_literal 0.01) in
          case getitem ''agent_pos'' (agent_pos info) of
            Inl e \<Rightarrow> Inl e
          | Inr pos \<Rightarrow>
             (let agent_x = pos mod 10;
                  agent_y = pos div 10 in
              case getitem ''enemies'' (enemies info) of
                Inl e \<Rightarrow> Inl e
              | Inr ens \<Rightarrow>
                 (let rew = enemy_loop agent_x agent_y ens rew in
                  case getitem ''game_over'' (game_over info) of
                    Inl e \<Rightarrow> Inl e
                  | Inr over \<Rightarrow>
                     (let rew = (if over then fsub rew (float_literal 5.0) else rew) in
                      Inr rew)))))"

subsection \<open>NumPy operations used by the observation functions\<close>

text \<open>
  \<^verbatim>\<open>a.flatten()\<close> of a three-dimensional array, in NumPy's default (C, row-major)
  order: the last axis varies fastest.
\<close>

definition flatten :: "'a list list list \<Rightarrow> 'a list" where
  "flatten a = concat (concat a)"

text \<open>\<^verbatim>\<open>np.zeros((m, n, k), dtype=np.uint8)\<close>.\<close>

definition zeros :: "nat \<Rightarrow> nat \<Rightarrow> nat \<Rightarrow> grid" where
  "zeros m n k = replicate m (replicate n (replicate k 0))"

text \<open>
  A bound of a Python slice on an axis of length \<open>n\<close>: a negative bound counts from the
  end, and the result is clipped to \<open>0..n\<close>. The slice \<^verbatim>\<open>lo:hi\<close> selects the positions
  from the bound of \<open>lo\<close> up to, and not including, the bound of \<open>hi\<close>; it is empty when
  they cross.
\<close>

definition slice_bound :: "nat \<Rightarrow> int \<Rightarrow> nat" where
  "slice_bound n i = (if i < 0 then nat (max 0 (i + int n)) else min (nat i) n)"

definition slice_len :: "nat \<Rightarrow> int \<Rightarrow> int \<Rightarrow> nat" where
  "slice_len n lo hi = slice_bound n hi - slice_bound n lo"

definition py_slice :: "int \<Rightarrow> int \<Rightarrow> 'a list \<Rightarrow> 'a list" where
  "py_slice lo hi xs =
     take (slice_len (length xs) lo hi) (drop (slice_bound (length xs) lo) xs)"

text \<open>The second component of an array's shape.\<close>

definition ncols :: "grid \<Rightarrow> nat" where
  "ncols a = (case a of [] \<Rightarrow> 0 | r # _ \<Rightarrow> length r)"

text \<open>The third component of an array's shape.\<close>

definition nchannels :: "grid \<Rightarrow> nat" where
  "nchannels a = (case a of [] \<Rightarrow> 0 | r # _ \<Rightarrow> (case r of [] \<Rightarrow> 0 | c # _ \<Rightarrow> length c))"

text \<open>\<^verbatim>\<open>a[r0:r1, c0:c1, :]\<close> and its shape.\<close>

definition slice_rows_cols :: "int \<Rightarrow> int \<Rightarrow> int \<Rightarrow> int \<Rightarrow> grid \<Rightarrow> grid" where
  "slice_rows_cols r0 r1 c0 c1 a = map (py_slice c0 c1) (py_slice r0 r1 a)"

definition slice_shape :: "int \<Rightarrow> int \<Rightarrow> int \<Rightarrow> int \<Rightarrow> grid \<Rightarrow> nat \<times> nat \<times> nat" where
  "slice_shape r0 r1 c0 c1 a =
     (slice_len (length a) r0 r1, slice_len (ncols a) c0 c1, nchannels a)"

text \<open>
  \<^verbatim>\<open>dst[0:h, 0:w, :] = src\<close>, where \<open>src\<close> has the shape \<open>(sh, sw, sc)\<close>. NumPy broadcasts
  \<open>src\<close> to the shape of the target region: on each of the three axes the lengths must
  agree or \<open>src\<close> must have length 1 (its only entry is then repeated); otherwise the
  assignment raises \<^verbatim>\<open>ValueError\<close>.
\<close>

definition setitem_block ::
  "grid \<Rightarrow> int \<Rightarrow> int \<Rightarrow> nat \<times> nat \<times> nat \<Rightarrow> grid \<Rightarrow> py_error + grid" where
  "setitem_block dst h w src_shape src =
     (let th = slice_len (length dst) 0 h;
          tw = slice_len (ncols dst) 0 w;
          tc = nchannels dst;
          sh = fst src_shape;
          sw = fst (snd src_shape);
          sc = snd (snd src_shape) in
      if (sh = th \<or> sh = 1) \<and> (sw = tw \<or> sw = 1) \<and> (sc = tc \<or> sc = 1) then
        Inr (map (\<lambda>i. map (\<lambda>j.
                   if i < th \<and> j < tw
                   then map (\<lambda>k. src ! (if sh = 1 then 0 else i) ! (if sw = 1 then 0 else j)
                                     ! (if sc = 1 then 0 else k)) [0..<tc]
                   else dst ! i ! j) [0..<ncols dst]) [0..<length dst])
      else Inl ValueError)"

text \<open>
  \<^verbatim>\<open>np.array([v], dtype=np.uint8)\<close> for a Python integer \<open>v\<close>. What happens outside
  \<open>0..255\<close> depends on the NumPy release, which the repository does not pin:
  \<^item> NumPy 1.x converts through a C \<^verbatim>\<open>long\<close> (64 bits here) and keeps the low 8 bits,
    raising \<^verbatim>\<open>OverflowError\<close> only when the value does not fit the \<^verbatim>\<open>long\<close>;
  \<^item> NumPy 2.x raises \<^verbatim>\<open>OverflowError\<close> for every value outside \<open>0..255\<close>.
\<close>

datatype numpy_version = NumPy1 | NumPy2

definition to_uint8 :: "numpy_version \<Rightarrow> int \<Rightarrow> py_error + u8" where
  "to_uint8 np v =
     (case np of
        NumPy1 \<Rightarrow>
          if - (2 ^ 63) \<le> v \<and> v < 2 ^ 63 then Inr (word_of_int v) else Inl OverflowError
      | NumPy2 \<Rightarrow>
          if 0 \<le> v \<and> v \<le> 255 then Inr (word_of_int v) else Inl OverflowError)"

subsection \<open>Observation functions\<close>

definition global_observation :: "grid \<Rightarrow> u8 list" where
  "global_observation grid = flatten grid"

definition local_observation :: "numpy_version \<Rightarrow> grid \<Rightarrow> step_info \<Rightarrow> py_error + u8 list" where
  "local_observation np grid info =
     (let grid_size = 10 in
      case getitem ''agent_pos'' (agent_pos info) of
        Inl e \<Rightarrow> Inl e
      | Inr pos \<Rightarrow>
         (let agent_row = pos div grid_size;
              agent_col = pos mod grid_size;
              patch_radius = 2;
              row_min = max 0 (agent_row - patch_radius);
              row_max = min grid_size (agent_row + patch_radius + 1);
              col_min = max 0 (agent_col - patch_radius);
              col_max = min grid_size (agent_col + patch_radius + 1);
              local_patch = slice_rows_cols row_min row_max col_min col_max grid;
              padded_patch = zeros 5 5 3;
              h = row_max - row_min;
              w = col_max - col_min in
          case setitem_block padded_patch h w
                 (slice_shape row_min row_max col_min col_max grid) local_patch of
            Inl e \<Rightarrow> Inl e
          | Inr padded_patch \<Rightarrow>
             (let flattened_patch = flatten padded_patch in
              case getitem ''steps_remaining'' (steps_remaining info) of
                Inl e \<Rightarrow> Inl e
              | Inr s \<Rightarrow>
                 (case to_uint8 np s of
                    Inl e \<Rightarrow> Inl e
                  | Inr steps \<Rightarrow>
                     (case getitem ''cells_remaining'' (cells_remaining info) of
                        Inl e \<Rightarrow> Inl e
                      | Inr c \<Rightarrow>
                         (case to_uint8 np c of
                            Inl e \<Rightarrow> Inl e
                          | Inr cells \<Rightarrow> Inr (flattened_patch @ [steps] @ [cells])))))))"

subsection \<open>Hooks called by the environment\<close>

text \<open>
  \<^verbatim>\<open>gym.spaces.Box(low, high, shape=(n,), dtype=np.uint8)\<close> is the triple of its bounds
  and its length.
\<close>

datatype space = Box int int nat

definition global_observation_space :: space where
  "global_observation_space = Box 0 255 300"

definition local_observation_space :: space where
  "local_observation_space = Box 0 255 77"

definition observation_space :: "module_state \<Rightarrow> space" where
  "observation_space st =
     (if CURRENT_OBS_MODE st = ''local'' then local_observation_space
      else global_observation_space)"

definition observation :: "numpy_version \<Rightarrow> module_state \<Rightarrow> grid \<Rightarrow> py_error + u8 list" where
  "observation np st grid =
     (if CURRENT_OBS_MODE st = ''local'' then
        (case LAST_INFO st of
           Some info \<Rightarrow> local_observation np grid info
         | None \<Rightarrow> Inr (flatten grid))
      else Inr (flatten grid))"

text \<open>
  \<open>reward\<close> assigns \<^verbatim>\<open>LAST_INFO\<close> before it dispatches, so the assignment stays when the
  selected policy raises.
\<close>

definition reward :: "module_state \<Rightarrow> step_info \<Rightarrow> (py_error + double) \<times> module_state" where
  "reward st info =
     (let st = st\<lparr>LAST_INFO := Some info\<rparr> in
      if CURRENT_REWARD_MODE st = ''basic'' then (reward_basic info, st)
      else if CURRENT_REWARD_MODE st = ''time_pressure'' then
        (let res = reward_time_pressure (LAST_AGENT_POS st) info in
         (fst res, st\<lparr>LAST_AGENT_POS := snd res\<rparr>))
      else (reward_proximity info, st))"

subsection \<open>Calls on the module\<close>

text \<open>
  Everything that can touch the module's globals: a call of one of its ten functions, or
  one of the two assignments the training and test scripts make before they build an
  environment (\<^verbatim>\<open>custom.CURRENT_OBS_MODE = ...\<close>, \<^verbatim>\<open>custom.CURRENT_REWARD_MODE = ...\<close>).
  \<open>after_call\<close> is the state a call leaves behind; only \<open>reward\<close> and
  \<open>reward_time_pressure\<close> assign a global.
\<close>

datatype call =
    Call_global_observation_space
  | Call_global_observation grid
  | Call_local_observation_space
  | Call_local_observation grid step_info
  | Call_reward_basic step_info
  | Call_reward_time_pressure step_info
  | Call_reward_proximity step_info
  | Call_observation_space
  | Call_observation grid
  | Call_reward step_info
  | Set_obs_mode string
  | Set_reward_mode string

fun after_call :: "module_state \<Rightarrow> call \<Rightarrow> module_state" where
  "after_call st (Call_reward info) = snd (reward st info)"
| "after_call st (Call_reward_time_pressure info) =
     st\<lparr>LAST_AGENT_POS := snd (reward_time_pressure (LAST_AGENT_POS st) info)\<rparr>"
| "after_call st (Set_obs_mode m) = st\<lparr>CURRENT_OBS_MODE := m\<rparr>"
| "after_call st (Set_reward_mode m) = st\<lparr>CURRENT_REWARD_MODE := m\<rparr>"
| "after_call st _ = st"

definition after_calls :: "module_state \<Rightarrow> call list \<Rightarrow> module_state" where
  "after_calls st cs = foldl after_call st cs"

subsection \<open>Vocabulary of the statements\<close>

text \<open>A grid of shape (10, 10, 3), as the environment produces it.\<close>

definition grid_shape :: "grid \<Rightarrow> bool" where
  "grid_shape g \<longleftrightarrow>
     length g = 10 \<and> (\<forall>row \<in> set g. length row = 10 \<and> (\<forall>cell \<in> set row. length cell = 3))"

text \<open>An \<^verbatim>\<open>info\<close> dictionary with every key present.\<close>

definition mk_info :: "int \<Rightarrow> int \<Rightarrow> int \<Rightarrow> bool \<Rightarrow> bool \<Rightarrow> enemy list \<Rightarrow> step_info" where
  "mk_info pos steps cells covered over ens =
     \<lparr>agent_pos = Some pos, steps_remaining = Some steps, cells_remaining = Some cells,
      new_cell_covered = Some covered, game_over = Some over, enemies = Some ens\<rparr>"

text \<open>
  The Manhattan distance between the agent at the flattened position \<open>pos\<close> (column
  \<open>pos mod 10\<close>, row \<open>pos div 10\<close>) and an enemy.
\<close>

definition manhattan :: "int \<Rightarrow> enemy \<Rightarrow> int" where
  "manhattan pos en = \<bar>pos mod 10 - enemy_x en\<bar> + \<bar>pos div 10 - enemy_y en\<bar>"

text \<open>
  \<^verbatim>\<open>np.reshape(v, (m, n, k))\<close> of a one-dimensional array, in C order; it raises
  \<^verbatim>\<open>ValueError\<close> when the sizes differ. The module does not call it: it is the inverse
  the round trip of \<open>global_observation\<close> is stated with.
\<close>

definition reshape :: "nat \<Rightarrow> nat \<Rightarrow> nat \<Rightarrow> 'a list \<Rightarrow> py_error + 'a list list list" where
  "reshape m n k v =
     (if length v = m * n * k
      then Inr (map (\<lambda>i. map (\<lambda>j. take k (drop ((i * n + j) * k) v)) [0..<n]) [0..<m])
      else Inl ValueError)"

text \<open>
  A grid for the concrete instances: the cell in row \<open>r\<close> and column \<open>c\<close> holds
  \<open>(10 r + c + 1, r + 1, c + 1)\<close>, so no entry is zero and every cell differs.
\<close>

definition sample_grid :: grid where
  "sample_grid =
     map (\<lambda>r. map (\<lambda>c. [of_nat (10 * r + c + 1), of_nat (r + 1), of_nat (c + 1)]) [0..<10])
       [0..<10]"

text \<open>
  The padded window as the specification words it: the window of radius 2 around the
  agent's row and column, clipped to the grid, in the top-left corner of a 5 by 5 buffer
  of zero cells.
\<close>

definition spec_padded_window :: "grid \<Rightarrow> int \<Rightarrow> grid" where
  "spec_padded_window g p =
     (let row_min = max 0 (p div 10 - 2); row_max = min 10 (p div 10 + 3);
          col_min = max 0 (p mod 10 - 2); col_max = min 10 (p mod 10 + 3) in
      map (\<lambda>i. map (\<lambda>j.
             if int i < row_max - row_min \<and> int j < col_max - col_min
             then g ! (nat row_min + i) ! (nat col_min + j)
             else replicate 3 0) [0..<5]) [0..<5])"

text \<open>
  The specification's reading of the two trailing scalars: each is clamped to \<open>0..255\<close>.
  \<open>scalars_clamped\<close> says that \<open>local_observation\<close> returns 77 elements whose last two
  are the clamped \<^verbatim>\<open>steps_remaining\<close> and \<^verbatim>\<open>cells_remaining\<close>.
\<close>

definition clamp_u8 :: "int \<Rightarrow> u8" where
  "clamp_u8 v = word_of_int (max 0 (min 255 v))"

definition scalars_clamped :: "numpy_version \<Rightarrow> grid \<Rightarrow> step_info \<Rightarrow> bool" where
  "scalars_clamped np grid info =
     (case local_observation np grid info of
        Inl e \<Rightarrow> False
      | Inr v \<Rightarrow>
          length v = 77
          \<and> Some (v ! 75) = map_option clamp_u8 (steps_remaining info)
          \<and> Some (v ! 76) = map_option clamp_u8 (cells_remaining info))"

section \<open>Verification\<close>

subsection \<open>Binary floating point\<close>

lemma pow2_pos: "0 < pow2 e"
  by (simp add: pow2_def)

lemma pow2_of_nat: "pow2 (int n) = 2 ^ n"
  by (simp add: pow2_def)

lemma pow2_minus_nat: "pow2 (- int n) = 1 / 2 ^ n"
proof (cases n)
  case 0
  then show ?thesis by (simp add: pow2_def)
next
  case (Suc k)
  then have "\<not> 0 \<le> - int n" and "nat (- (- int n)) = n" by simp_all
  then show ?thesis by (simp only: pow2_def if_False) simp
qed

lemma pow2_diff_nat: "pow2 (int m - int n) = 2 ^ m / 2 ^ n"
proof (cases "n \<le> m")
  case True
  then have "int m - int n = int (m - n)" by simp
  moreover have "(2::rat) ^ (m - n) = 2 ^ m / 2 ^ n" using True by (simp add: power_diff)
  ultimately show ?thesis by (simp only: pow2_of_nat)
next
  case False
  then have "int m - int n = - int (n - m)" by simp
  moreover have "(2::rat) ^ (n - m) = 2 ^ n / 2 ^ m" using False by (simp add: power_diff)
  ultimately show ?thesis by (simp only: pow2_minus_nat) simp
qed

lemma pow2_Suc: "pow2 (e + 1) = 2 * pow2 e"
proof (cases "0 \<le> e")
  case True
  then have "e = int (nat e)" by simp
  then have "e + 1 = int (Suc (nat e))" by simp
  then have "pow2 (e + 1) = 2 ^ Suc (nat e)" by (simp only: pow2_of_nat)
  moreover from True have "pow2 e = 2 ^ nat e" by (simp add: pow2_def)
  ultimately show ?thesis by simp
next
  case False
  then have e: "e = int 0 - int (nat (- e))" and "e + 1 = int 1 - int (nat (- e))" by simp_all
  then have "pow2 (e + 1) = 2 ^ 1 / 2 ^ nat (- e)" by (simp only: pow2_diff_nat)
  moreover from False have "pow2 e = 1 / 2 ^ nat (- e)" by (simp add: pow2_def)
  ultimately show ?thesis by simp
qed

text \<open>\<open>floor_log2\<close> is the exponent of the binade of its argument.\<close>

lemma floor_log2_bounds:
  assumes "x \<noteq> 0"
  shows "pow2 (floor_log2 x) \<le> \<bar>x\<bar> \<and> \<bar>x\<bar> < pow2 (floor_log2 x + 1)"
proof -
  define a where "a = fst (quotient_of \<bar>x\<bar>)"
  define b where "b = snd (quotient_of \<bar>x\<bar>)"
  define k where "k = bitlen a - bitlen b"
  have b: "0 < b" unfolding b_def by (rule quotient_of_denom_pos')
  have x: "\<bar>x\<bar> = of_int a / of_int b"
    unfolding a_def b_def by (rule quotient_of_div) simp
  from assms have "0 < \<bar>x\<bar>" by simp
  with x b have a: "0 < a" by (simp add: zero_less_divide_iff)
  from bitlen_bounds [OF a] have a1: "2 ^ nat (bitlen a - 1) \<le> a" and a2: "a < 2 ^ nat (bitlen a)"
    by simp_all
  from bitlen_bounds [OF b] have b1: "2 ^ nat (bitlen b - 1) \<le> b" and b2: "b < 2 ^ nat (bitlen b)"
    by simp_all
  from a have la: "1 \<le> bitlen a" by (simp add: bitlen_alt_def)
  from b have lb: "1 \<le> bitlen b" by (simp add: bitlen_alt_def)
  define m where "m = nat (bitlen a)"
  define n where "n = nat (bitlen b)"
  from la lb have mn: "bitlen a = int m" "bitlen b = int n" "0 < m" "0 < n"
    by (simp_all add: m_def n_def)
  from a1 mn have A1: "(2::rat) ^ (m - 1) \<le> of_int a"
    by (metis m_def nat_diff_distrib nat_one_as_int of_int_le_iff of_int_numeral of_int_power la zero_le_one nat_1)
  from a2 have A2: "of_int a < (2::rat) ^ m"
    unfolding m_def by (metis of_int_less_iff of_int_numeral of_int_power)
  from b1 mn have B1: "(2::rat) ^ (n - 1) \<le> of_int b"
    by (metis n_def nat_diff_distrib nat_one_as_int of_int_le_iff of_int_numeral of_int_power lb zero_le_one nat_1)
  from b2 have B2: "of_int b < (2::rat) ^ n"
    unfolding n_def by (metis of_int_less_iff of_int_numeral of_int_power)
  have bpos: "(0::rat) < of_int b" using b by simp
  have apos: "(0::rat) < of_int a" using a by simp
  have upper: "\<bar>x\<bar> < pow2 (k + 1)"
  proof -
    have "of_int a / of_int b < (2::rat) ^ m / of_int b"
      using A2 bpos by (simp add: divide_strict_right_mono)
    also have "\<dots> \<le> 2 ^ m / 2 ^ (n - 1)"
      using B1 by (simp add: frac_le)
    also have "\<dots> = pow2 (int m - int (n - 1))" by (simp only: pow2_diff_nat)
    also have "int m - int (n - 1) = k + 1" using mn by (simp add: k_def)
    finally show ?thesis by (simp only: x)
  qed
  have lower: "pow2 (k - 1) < \<bar>x\<bar>"
  proof -
    have "pow2 (int (m - 1) - int n) = 2 ^ (m - 1) / 2 ^ n" by (simp only: pow2_diff_nat)
    moreover have "int (m - 1) - int n = k - 1" using mn by (simp add: k_def)
    ultimately have "pow2 (k - 1) = 2 ^ (m - 1) / 2 ^ n" by simp
    also have "\<dots> \<le> of_int a / 2 ^ n"
      using A1 by (simp add: divide_right_mono)
    also have "\<dots> < of_int a / of_int b"
      using B2 apos bpos by (simp add: divide_strict_left_mono)
    finally show ?thesis by (simp only: x)
  qed
  have result: "floor_log2 x = (if pow2 k \<le> \<bar>x\<bar> then k else k - 1)"
    unfolding floor_log2_def Let_def k_def a_def b_def ..
  show ?thesis
  proof (cases "pow2 k \<le> \<bar>x\<bar>")
    case True
    with result upper show ?thesis by simp
  next
    case False
    with result lower show ?thesis by simp
  qed
qed

text \<open>\<open>round_half_even\<close> is within one half of its argument.\<close>

lemma round_half_even_nearest: "\<bar>of_int (round_half_even x) - x\<bar> \<le> 1 / 2"
proof -
  define d where "d = x - of_int \<lfloor>x\<rfloor>"
  have d: "0 \<le> d" "d < 1" unfolding d_def by linarith+
  have x: "x = of_int \<lfloor>x\<rfloor> + d" by (simp add: d_def)
  have result: "round_half_even x =
      (if d < 1 / 2 then \<lfloor>x\<rfloor> else if 1 / 2 < d then \<lfloor>x\<rfloor> + 1
       else if even \<lfloor>x\<rfloor> then \<lfloor>x\<rfloor> else \<lfloor>x\<rfloor> + 1)"
    unfolding round_half_even_def Let_def d_def ..
  consider "d < 1 / 2" | "1 / 2 < d" | "d = 1 / 2" by linarith
  then show ?thesis
  proof cases
    case 1
    with result have "of_int (round_half_even x) - x = - d" using x by simp
    with 1 d show ?thesis by simp
  next
    case 2
    with result have "of_int (round_half_even x) - x = 1 - d" using x by simp
    with 2 d show ?thesis by simp
  next
    case 3
    with result have "of_int (round_half_even x) - x = - d \<or> of_int (round_half_even x) - x = 1 - d"
      using x by (cases "even \<lfloor>x\<rfloor>") simp_all
    with 3 show ?thesis by auto
  qed
qed

lemma pow2_add_nat: "pow2 (int n + a) = 2 ^ n * pow2 a"
proof (induction n)
  case 0
  show ?case by simp
next
  case (Suc n)
  have "pow2 (int (Suc n) + a) = 2 * pow2 (int n + a)"
    using pow2_Suc [of "int n + a"] by (simp add: ac_simps)
  with Suc show ?case by simp
qed

lemma pow2_mono: "a \<le> b \<Longrightarrow> pow2 a \<le> pow2 b"
proof -
  assume "a \<le> b"
  then obtain n where b: "b = a + int n" by (metis zle_iff_zadd)
  have "pow2 a \<le> pow2 (a + int n)"
  proof (induction n)
    case 0
    show ?case by simp
  next
    case (Suc n)
    have "pow2 (a + int (Suc n)) = 2 * pow2 (a + int n)"
      using pow2_Suc [of "a + int n"] by (simp add: ac_simps)
    with Suc pow2_pos [of "a + int n"] show ?case by simp
  qed
  with b show ?thesis by simp
qed

text \<open>
  The multiple chosen by \<open>round_double\<close> has at most 53 bits or is \<open>2\<^sup>5\<^sup>3\<close>, and the
  rounded number is within half a unit in the last place of the exact one.
\<close>

lemma round_double_multiple:
  assumes "x \<noteq> 0"
  shows "\<bar>round_half_even (x / pow2 (max (floor_log2 x) (- 1022) - 52))\<bar> \<le> 2 ^ 53"
proof -
  define e where "e = max (floor_log2 x) (- 1022)"
  define q where "q = x / pow2 (e - 52)"
  have "\<bar>x\<bar> < pow2 (floor_log2 x + 1)" using floor_log2_bounds [OF assms] by simp
  also have "\<dots> \<le> pow2 (e + 1)" by (rule pow2_mono) (simp add: e_def)
  finally have "\<bar>x\<bar> < pow2 (e + 1)" .
  moreover have "pow2 (e + 1) = 2 ^ 53 * pow2 (e - 52)"
  proof -
    have "e + 1 = int 53 + (e - 52)" by simp
    then have "pow2 (e + 1) = pow2 (int 53 + (e - 52))" by (rule arg_cong)
    also have "\<dots> = 2 ^ 53 * pow2 (e - 52)" by (rule pow2_add_nat)
    finally show ?thesis .
  qed
  ultimately have "\<bar>q\<bar> < 2 ^ 53"
    using pow2_pos [of "e - 52"] by (simp add: q_def abs_divide pos_divide_less_eq)
  then have "\<bar>q\<bar> < 9007199254740992" by simp
  moreover have "\<bar>of_int (round_half_even q) - q\<bar> \<le> 1 / 2" by (rule round_half_even_nearest)
  ultimately have "\<bar>(of_int (round_half_even q) :: rat)\<bar> < 9007199254740993" by linarith
  then have "(of_int \<bar>round_half_even q\<bar> :: rat) < of_int 9007199254740993" by simp
  then have "\<bar>round_half_even q\<bar> < 9007199254740993" by (simp only: of_int_less_iff)
  then show ?thesis unfolding q_def e_def by simp
qed

lemma round_double_nearest:
  assumes "round_double x = Finite y"
  shows "\<bar>y - x\<bar> \<le> pow2 (max (floor_log2 x) (- 1022) - 52) / 2"
proof (cases "x = 0")
  case True
  with assms have "y = 0" by (simp add: round_double_def)
  with True pow2_pos [of "max (floor_log2 0) (- 1022) - 52"] show ?thesis by simp
next
  case False
  define u where "u = pow2 (max (floor_log2 x) (- 1022) - 52)"
  have u: "0 < u" unfolding u_def by (rule pow2_pos)
  from assms False have y: "y = of_int (round_half_even (x / u)) * u"
    unfolding round_double_def Let_def u_def by (simp split: if_splits)
  have "\<bar>of_int (round_half_even (x / u)) - x / u\<bar> \<le> 1 / 2"
    by (rule round_half_even_nearest)
  then have "\<bar>of_int (round_half_even (x / u)) - x / u\<bar> * u \<le> 1 / 2 * u"
    using u by (simp add: mult_right_mono)
  moreover have "\<bar>of_int (round_half_even (x / u)) - x / u\<bar> * u = \<bar>y - x\<bar>"
  proof -
    have "(of_int (round_half_even (x / u)) - x / u) * u = y - x"
      using u unfolding y by (simp add: left_diff_distrib)
    then have "\<bar>y - x\<bar> = \<bar>of_int (round_half_even (x / u)) - x / u\<bar> * \<bar>u\<bar>"
      by (simp only: abs_mult [symmetric])
    with u show ?thesis by simp
  qed
  ultimately show ?thesis unfolding u_def by simp
qed

text \<open>
  The model on numbers whose binary64 values are well known: ties go to the even
  integer, the literals of the module denote the binary expansions NumPy and CPython
  print for them, and \<^verbatim>\<open>0.1 + 0.2\<close> is \<^verbatim>\<open>0.30000000000000004\<close>, which is not \<^verbatim>\<open>0.3\<close>.
\<close>

lemma round_half_even_ties:
  "round_half_even (1 / 2) = 0 \<and> round_half_even (3 / 2) = 2 \<and> round_half_even (5 / 2) = 2
   \<and> round_half_even (- 1 / 2) = 0 \<and> round_half_even (- 3 / 2) = - 2
   \<and> round_half_even (7 / 4) = 2 \<and> round_half_even (5 / 4) = 1"
  by code_simp

lemma float_literal_values:
  "float_literal 0.1 = Finite (3602879701896397 / 2 ^ 55)"
  "float_literal 0.01 = Finite (5764607523034235 / 2 ^ 59)"
  "float_literal 0.05 = Finite (3602879701896397 / 2 ^ 56)"
  "float_literal 1.0 = Finite 1"
  "float_literal 5.0 = Finite 5"
  "float_literal 0.0 = Finite 0"
  by code_simp+

lemma fadd_rounds:
  "fadd (float_literal 0.1) (float_literal 0.2) = float_literal 0.30000000000000004"
  "float_literal 0.30000000000000004 = Finite (1351079888211149 / 2 ^ 52)"
  "float_literal 0.3 = Finite (5404319552844595 / 2 ^ 54)"
  by code_simp+

lemma float_literal_six_hundredths:
  "float_literal (- 0.060000000000000005) = Finite (- 8646911284551353 / 2 ^ 57)"
  "float_literal (- 0.06) = Finite (- 1080863910568919 / 2 ^ 54)"
  by code_simp+

lemma float_literal_twenty_one_hundredths:
  "float_literal (- 0.21000000000000002) = Finite (- 3783023686991217 / 2 ^ 54)"
  "float_literal (- 0.21) = Finite (- 7566047373982433 / 2 ^ 55)"
  by code_simp+

subsection \<open>Reward functions\<close>

lemma getitem_Some [simp]: "getitem k (Some a) = Inr a"
  by (simp add: getitem_def)

lemma getitem_None [simp]: "getitem k None = Inl (KeyError k)"
  by (simp add: getitem_def)

text \<open>
  C9. When both keys are present, \<open>reward_basic\<close> is the sum of two independent terms:
  \<open>+1\<close> if a new cell was covered and \<open>-1\<close> if the game is over. With a new cell
  and no game over it is \<open>1\<close>; with both it is \<open>0\<close>. The numbers 0, 1 and -1 are
  binary64 numbers, and no step rounds.
\<close>

theorem reward_basic_additive:
  "(new_cell_covered info = Some covered \<and> game_over info = Some over \<longrightarrow>
      reward_basic info =
        Inr (Finite ((if covered then 1.0 else 0.0) + (if over then - 1.0 else 0.0))))
   \<and> (new_cell_covered info = Some True \<and> game_over info = Some False \<longrightarrow>
      reward_basic info = Inr (Finite 1.0))
   \<and> (new_cell_covered info = Some True \<and> game_over info = Some True \<longrightarrow>
      reward_basic info = Inr (Finite 0.0))"
proof -
  define acc where "acc c g =
      (if g then fsub (if c then fadd (float_literal 0.0) (float_literal 1.0)
                       else float_literal 0.0) (float_literal 1.0)
       else (if c then fadd (float_literal 0.0) (float_literal 1.0) else float_literal 0.0))"
    for c g
  have unfolded: "reward_basic info = Inr (acc c g)"
    if "new_cell_covered info = Some c" "game_over info = Some g" for c g
    unfolding reward_basic_def Let_def acc_def
    by (simp only: that getitem_Some sum.case)
  have evals: "acc False False = Finite 0.0" "acc True False = Finite 1.0"
    "acc False True = Finite (- 1.0)" "acc True True = Finite 0.0"
    unfolding acc_def by code_simp+
  have general: "reward_basic info =
        Inr (Finite ((if c then 1.0 else 0.0) + (if g then - 1.0 else 0.0)))"
    if "new_cell_covered info = Some c" "game_over info = Some g" for c g
    unfolding unfolded [OF that] by (cases c; cases g) (simp_all add: evals)
  from general [of True False] general [of True True] general [of covered over]
  show ?thesis by simp
qed

theorem reward_basic_additive_witness:
  "new_cell_covered (mk_info 0 10 20 True False []) = Some True
   \<and> game_over (mk_info 0 10 20 True False []) = Some False
   \<and> reward_basic (mk_info 0 10 20 True False []) = Inr (Finite 1.0)
   \<and> new_cell_covered (mk_info 0 10 20 True True []) = Some True
   \<and> game_over (mk_info 0 10 20 True True []) = Some True
   \<and> reward_basic (mk_info 0 10 20 True True []) = Inr (Finite 0.0)"
  using reward_basic_additive [of "mk_info 0 10 20 True False []" True False]
        reward_basic_additive [of "mk_info 0 10 20 True True []" True True]
  by (simp add: mk_info_def)

text \<open>
  C4, as the specification states it, fails: a first call with both flags false returns
  \<open>-0.01\<close>, but the call after it with the same position returns the binary64
  difference of \<open>-0.01\<close> and \<open>0.05\<close>, which is \<open>-0.060000000000000005\<close> and not the
  float \<open>-0.06\<close>: the two are the binary64 numbers \<open>-8646911284551353 / 2\<^sup>5\<^sup>7\<close>
  and \<open>-1080863910568919 / 2\<^sup>5\<^sup>4\<close>, one unit in the last place apart.
\<close>

theorem reward_time_pressure_second_call:
  "fst (reward_time_pressure None (mk_info 42 10 20 False False []))
     = Inr (float_literal (- 0.01))
   \<and> fst (reward_time_pressure
             (snd (reward_time_pressure None (mk_info 42 10 20 False False [])))
             (mk_info 42 10 20 False False []))
     = Inr (float_literal (- 0.060000000000000005))
   \<and> fst (reward_time_pressure
             (snd (reward_time_pressure None (mk_info 42 10 20 False False [])))
             (mk_info 42 10 20 False False []))
     \<noteq> Inr (float_literal (- 0.06))
   \<and> fst (reward_time_pressure
             (snd (reward_time_pressure None (mk_info 42 10 20 False False [])))
             (mk_info 42 10 20 False False []))
     = Inr (Finite (- 8646911284551353 / 2 ^ 57))
   \<and> float_literal (- 0.06) = Finite (- 1080863910568919 / 2 ^ 54)"
proof -
  have first: "fst (reward_time_pressure None (mk_info 42 10 20 False False []))
     = Inr (float_literal (- 0.01))"
    by code_simp
  have second: "fst (reward_time_pressure
             (snd (reward_time_pressure None (mk_info 42 10 20 False False [])))
             (mk_info 42 10 20 False False []))
     = Inr (float_literal (- 0.060000000000000005))"
    by code_simp
  have "Finite (- 8646911284551353 / 2 ^ 57) \<noteq> Finite (- 1080863910568919 / 2 ^ 54)"
    by simp
  with first second float_literal_six_hundredths show ?thesis
    by (simp only: simp_thms sum.inject)
qed




text \<open>
  C5, as the specification states it, fails: with two enemies nearer than 3 and both
  flags false the exact sum is \<open>-0.01 - 0.1 - 0.1 = -0.21\<close>, and \<open>reward_proximity\<close>
  returns \<open>-0.21000000000000002\<close>, since each subtraction rounds: the two are the
  binary64 numbers \<open>-7566047373982433 / 2\<^sup>5\<^sup>5\<close> and \<open>-3783023686991217 / 2\<^sup>5\<^sup>4\<close>.
\<close>

theorem reward_proximity_two_near:
  "manhattan 55 (Enemy 5 6) = 1 \<and> manhattan 55 (Enemy 4 4) = 2
   \<and> reward_proximity (mk_info 55 10 20 False False [Enemy 5 6, Enemy 4 4])
      = Inr (float_literal (- 0.21000000000000002))
   \<and> reward_proximity (mk_info 55 10 20 False False [Enemy 5 6, Enemy 4 4])
      \<noteq> Inr (float_literal (- 0.01 - 0.1 - 0.1))
   \<and> reward_proximity (mk_info 55 10 20 False False [Enemy 5 6, Enemy 4 4])
      = Inr (Finite (- 3783023686991217 / 2 ^ 54))
   \<and> float_literal (- 0.01 - 0.1 - 0.1) = Finite (- 7566047373982433 / 2 ^ 55)"
proof -
  have near: "manhattan 55 (Enemy 5 6) = 1" "manhattan 55 (Enemy 4 4) = 2"
    by (simp_all add: manhattan_def)
  have returned: "reward_proximity (mk_info 55 10 20 False False [Enemy 5 6, Enemy 4 4])
      = Inr (float_literal (- 0.21000000000000002))"
    by code_simp
  have sum: "(- 0.01 - 0.1 - 0.1 :: rat) = - 0.21"
    by simp
  have "Finite (- 3783023686991217 / 2 ^ 54) \<noteq> Finite (- 7566047373982433 / 2 ^ 55)"
    by simp
  with near returned float_literal_twenty_one_hundredths show ?thesis
    unfolding sum by (simp only: simp_thms sum.inject)
qed



subsection \<open>The reward hook\<close>

text \<open>
  C6. \<open>reward\<close> stores \<open>info\<close> in \<^verbatim>\<open>LAST_INFO\<close> and returns the value of the policy the
  reward mode selects: \<open>reward_basic\<close> for \<^verbatim>\<open>basic\<close>, \<open>reward_time_pressure\<close> (on the
  recorded last position) for \<^verbatim>\<open>time_pressure\<close>, \<open>reward_proximity\<close> for \<^verbatim>\<open>proximity\<close>.
\<close>

theorem reward_dispatch:
  "LAST_INFO (snd (reward st info)) = Some info
   \<and> (CURRENT_REWARD_MODE st = ''basic'' \<longrightarrow> fst (reward st info) = reward_basic info)
   \<and> (CURRENT_REWARD_MODE st = ''time_pressure'' \<longrightarrow>
        fst (reward st info) = fst (reward_time_pressure (LAST_AGENT_POS st) info))
   \<and> (CURRENT_REWARD_MODE st = ''proximity'' \<longrightarrow>
        fst (reward st info) = reward_proximity info)"
  by (simp add: reward_def Let_def)

theorem reward_dispatch_witness:
  "LAST_INFO (snd (reward initial_state (mk_info 55 10 20 True False [Enemy 5 6])))
     = Some (mk_info 55 10 20 True False [Enemy 5 6])
   \<and> fst (reward initial_state (mk_info 55 10 20 True False [Enemy 5 6]))
     = Inr (float_literal 1.0)
   \<and> fst (reward (initial_state\<lparr>CURRENT_REWARD_MODE := ''time_pressure''\<rparr>)
            (mk_info 55 10 20 True False [Enemy 5 6])) = Inr (float_literal 0.99)
   \<and> fst (reward (initial_state\<lparr>CURRENT_REWARD_MODE := ''proximity''\<rparr>)
            (mk_info 55 10 20 True False [Enemy 5 6])) = Inr (float_literal 0.89)"
proof -
  let ?info = "mk_info 55 10 20 True False [Enemy 5 6]"
  have modes: "CURRENT_REWARD_MODE initial_state = ''basic''"
    "CURRENT_REWARD_MODE (initial_state\<lparr>CURRENT_REWARD_MODE := ''time_pressure''\<rparr>)
       = ''time_pressure''"
    "CURRENT_REWARD_MODE (initial_state\<lparr>CURRENT_REWARD_MODE := ''proximity''\<rparr>)
       = ''proximity''"
    by (simp_all add: initial_state_def)
  have policies: "reward_basic ?info = Inr (float_literal 1.0)"
    "fst (reward_time_pressure
        (LAST_AGENT_POS (initial_state\<lparr>CURRENT_REWARD_MODE := ''time_pressure''\<rparr>)) ?info)
       = Inr (float_literal 0.99)"
    "reward_proximity ?info = Inr (float_literal 0.89)"
    by code_simp+
  note basic = reward_dispatch [of initial_state ?info]
  note pressure = reward_dispatch
      [of "initial_state\<lparr>CURRENT_REWARD_MODE := ''time_pressure''\<rparr>" ?info]
  note proximity = reward_dispatch
      [of "initial_state\<lparr>CURRENT_REWARD_MODE := ''proximity''\<rparr>" ?info]
  from basic pressure proximity modes policies show ?thesis by simp
qed

subsection \<open>Flattening\<close>

text \<open>
  Concatenating lists of one length \<open>n\<close>: the entry \<open>j\<close> of the list \<open>i\<close> lands at
  \<open>i * n + j\<close>, and the list \<open>i\<close> is the \<open>n\<close> entries from \<open>i * n\<close> on.
\<close>

lemma length_concat_uniform:
  "(\<forall>xs \<in> set xss. length xs = n) \<Longrightarrow> length (concat xss) = length xss * n"
  by (induction xss) simp_all

lemma nth_concat_uniform:
  "(\<forall>xs \<in> set xss. length xs = n) \<Longrightarrow> i < length xss \<Longrightarrow> j < n \<Longrightarrow>
     concat xss ! (i * n + j) = xss ! i ! j"
proof (induction xss arbitrary: i)
  case Nil
  then show ?case by simp
next
  case (Cons xs xss)
  show ?case
  proof (cases i)
    case 0
    with Cons.prems show ?thesis by (simp add: nth_append)
  next
    case (Suc i')
    with Cons.prems have "concat xss ! (i' * n + j) = xss ! i' ! j"
      by (intro Cons.IH) simp_all
    with Suc Cons.prems show ?thesis by (simp add: nth_append)
  qed
qed

lemma take_drop_concat_uniform:
  "(\<forall>xs \<in> set xss. length xs = n) \<Longrightarrow> i < length xss \<Longrightarrow>
     take n (drop (i * n) (concat xss)) = xss ! i"
proof (induction xss arbitrary: i)
  case Nil
  then show ?case by simp
next
  case (Cons xs xss)
  show ?case
  proof (cases i)
    case 0
    with Cons.prems show ?thesis by simp
  next
    case (Suc i')
    with Cons.prems have "take n (drop (i' * n) (concat xss)) = xss ! i'"
      by (intro Cons.IH) simp_all
    with Suc Cons.prems show ?thesis by simp
  qed
qed

lemma grid_shape_length: "grid_shape g \<Longrightarrow> length g = 10"
  by (simp add: grid_shape_def)

lemma length_flatten_uniform:
  assumes "\<forall>row \<in> set a. length row = n \<and> (\<forall>cell \<in> set row. length cell = k)"
  shows "length (flatten a) = length a * n * k"
proof -
  from assms have "\<forall>cell \<in> set (concat a). length cell = k" by auto
  then have "length (flatten a) = length (concat a) * k"
    unfolding flatten_def by (rule length_concat_uniform)
  moreover from assms have "length (concat a) = length a * n"
    by (intro length_concat_uniform) simp
  ultimately show ?thesis by simp
qed

lemma nth_flatten_uniform:
  assumes "\<forall>row \<in> set a. length row = n \<and> (\<forall>cell \<in> set row. length cell = k)"
    and "i < length a" "j < n" "c < k"
  shows "flatten a ! ((i * n + j) * k + c) = a ! i ! j ! c"
proof -
  from assms(1) have cells: "\<forall>cell \<in> set (concat a). length cell = k" by auto
  from assms(1) have rows: "\<forall>row \<in> set a. length row = n" by simp
  have "length (concat a) = length a * n"
    using rows by (rule length_concat_uniform)
  moreover have "i * n + j < length a * n"
  proof -
    have "i * n + j < i * n + n" using assms(3) by simp
    also have "\<dots> = Suc i * n" by simp
    also have "\<dots> \<le> length a * n" using assms(2) by (intro mult_le_mono1) simp
    finally show ?thesis .
  qed
  ultimately have "i * n + j < length (concat a)" by simp
  with cells assms(4) have "concat (concat a) ! ((i * n + j) * k + c) = concat a ! (i * n + j) ! c"
    by (intro nth_concat_uniform)
  also have "concat a ! (i * n + j) = a ! i ! j"
    using rows assms(2,3) by (rule nth_concat_uniform)
  finally show ?thesis by (simp add: flatten_def)
qed

lemma take_drop_flatten_uniform:
  assumes "\<forall>row \<in> set a. length row = n \<and> (\<forall>cell \<in> set row. length cell = k)"
    and "i < length a" "j < n"
  shows "take k (drop ((i * n + j) * k) (flatten a)) = a ! i ! j"
proof -
  from assms(1) have cells: "\<forall>cell \<in> set (concat a). length cell = k" by auto
  from assms(1) have rows: "\<forall>row \<in> set a. length row = n" by simp
  have "length (concat a) = length a * n"
    using rows by (rule length_concat_uniform)
  moreover have "i * n + j < length a * n"
  proof -
    have "i * n + j < i * n + n" using assms(3) by simp
    also have "\<dots> = Suc i * n" by simp
    also have "\<dots> \<le> length a * n" using assms(2) by (intro mult_le_mono1) simp
    finally show ?thesis .
  qed
  ultimately have "i * n + j < length (concat a)" by simp
  with cells have "take k (drop ((i * n + j) * k) (concat (concat a))) = concat a ! (i * n + j)"
    by (intro take_drop_concat_uniform)
  also have "concat a ! (i * n + j) = a ! i ! j"
    using rows assms(2,3) by (rule nth_concat_uniform)
  finally show ?thesis by (simp add: flatten_def)
qed

lemma grid_shape_uniform:
  "grid_shape g \<Longrightarrow> \<forall>row \<in> set g. length row = 10 \<and> (\<forall>cell \<in> set row. length cell = 3)"
  by (simp add: grid_shape_def)

lemma grid_shape_cell:
  assumes "grid_shape g" "i < 10" "j < 10"
  shows "length (g ! i ! j) = 3"
proof -
  from assms(1,2) have row: "g ! i \<in> set g" by (simp add: grid_shape_def)
  with assms(1,3) have "g ! i ! j \<in> set (g ! i)" by (simp add: grid_shape_def)
  with assms(1) row show ?thesis by (simp add: grid_shape_def)
qed

lemma grid_shape_sample: "grid_shape sample_grid"
  by code_simp

text \<open>
  C2. For a grid of shape (10, 10, 3), \<open>global_observation\<close> returns 300 elements, the
  entry of row \<open>r\<close>, column \<open>c\<close> and channel \<open>k\<close> at index \<open>30 r + 3 c + k\<close> (row-major,
  channel last), and reshaping the result to (10, 10, 3) gives the grid back. The
  elements are 8-bit words, so they lie in \<open>0..255\<close> by their type.
\<close>

theorem global_observation_flatten:
  assumes "grid_shape grid"
  shows "length (global_observation grid) = 300
    \<and> (\<forall>r<10. \<forall>c<10. \<forall>k<3. global_observation grid ! (30 * r + 3 * c + k) = grid ! r ! c ! k)
    \<and> reshape 10 10 3 (global_observation grid) = Inr grid"
proof -
  note u = grid_shape_uniform [OF assms]
  have len: "length grid = 10" using assms by (rule grid_shape_length)
  have l300: "length (global_observation grid) = 300"
    using length_flatten_uniform [OF u] len by (simp add: global_observation_def)
  have idx: "global_observation grid ! (30 * r + 3 * c + k) = grid ! r ! c ! k"
    if "r < 10" "c < 10" "k < 3" for r c k
  proof -
    have "flatten grid ! ((r * 10 + c) * 3 + k) = grid ! r ! c ! k"
      using u that len by (intro nth_flatten_uniform) simp_all
    moreover have "(r * 10 + c) * 3 + k = 30 * r + 3 * c + k" by simp
    ultimately show ?thesis unfolding global_observation_def by metis
  qed
  have cell: "take 3 (drop ((i * 10 + j) * 3) (flatten grid)) = grid ! i ! j"
    if "i < 10" "j < 10" for i j
  proof (rule take_drop_flatten_uniform [OF u])
    show "i < length grid" using that len by simp
    show "j < 10" by fact
  qed
  have row: "map (\<lambda>j. take 3 (drop ((i * 10 + j) * 3) (flatten grid))) [0..<10] = grid ! i"
    if "i < 10" for i
  proof (rule nth_equalityI)
    from that len u show "length (map (\<lambda>j. take 3 (drop ((i * 10 + j) * 3) (flatten grid))) [0..<10]) = length (grid ! i)"
      by simp
  next
    fix j assume "j < length (map (\<lambda>j. take 3 (drop ((i * 10 + j) * 3) (flatten grid))) [0..<10])"
    then have "j < 10" by simp
    with that show "map (\<lambda>j. take 3 (drop ((i * 10 + j) * 3) (flatten grid))) [0..<10] ! j = grid ! i ! j"
      using cell [of i j] by simp
  qed
  have "map (\<lambda>i. map (\<lambda>j. take 3 (drop ((i * 10 + j) * 3) (flatten grid))) [0..<10]) [0..<10] = grid"
  proof (rule nth_equalityI)
    show "length (map (\<lambda>i. map (\<lambda>j. take 3 (drop ((i * 10 + j) * 3) (flatten grid))) [0..<10]) [0..<10]) = length grid"
      using len by simp
  next
    fix i assume "i < length (map (\<lambda>i. map (\<lambda>j. take 3 (drop ((i * 10 + j) * 3) (flatten grid))) [0..<10]) [0..<10])"
    then have "i < 10" by simp
    then show "map (\<lambda>i. map (\<lambda>j. take 3 (drop ((i * 10 + j) * 3) (flatten grid))) [0..<10]) [0..<10] ! i = grid ! i"
      using row [of i] by simp
  qed
  with l300 have "reshape 10 10 3 (global_observation grid) = Inr grid"
    by (simp add: reshape_def global_observation_def)
  with l300 idx show ?thesis by blast
qed

theorem global_observation_flatten_witness:
  "grid_shape sample_grid
   \<and> length (global_observation sample_grid) = 300
   \<and> global_observation sample_grid ! 299 = 10
   \<and> reshape 10 10 3 (global_observation sample_grid) = Inr sample_grid"
proof -
  note flat = global_observation_flatten [OF grid_shape_sample]
  have "sample_grid ! 9 ! 9 ! 2 = 10" by code_simp
  moreover have "global_observation sample_grid ! (30 * 9 + 3 * 9 + 2) = sample_grid ! 9 ! 9 ! 2"
    using flat [THEN conjunct2, THEN conjunct1, rule_format, of 9 9 2] by simp
  ultimately have "global_observation sample_grid ! 299 = 10" by simp
  with flat grid_shape_sample show ?thesis by blast
qed

subsection \<open>Slices and the block assignment\<close>

lemma slice_bound_le: "slice_bound n i \<le> n"
  by (auto simp: slice_bound_def)

lemma length_py_slice: "length (py_slice lo hi xs) = slice_len (length xs) lo hi"
  using slice_bound_le [of "length xs" hi]
  by (simp add: py_slice_def slice_len_def)

lemma nth_py_slice:
  "i < slice_len (length xs) lo hi \<Longrightarrow>
     py_slice lo hi xs ! i = xs ! (slice_bound (length xs) lo + i)"
  using slice_bound_le [of "length xs" hi]
  by (simp add: py_slice_def slice_len_def)

lemma set_py_slice: "set (py_slice lo hi xs) \<subseteq> set xs"
proof -
  have "set (py_slice lo hi xs) \<subseteq> set (drop (slice_bound (length xs) lo) xs)"
    unfolding py_slice_def by (rule set_take_subset)
  also have "\<dots> \<subseteq> set xs" by (rule set_drop_subset)
  finally show ?thesis .
qed

lemma ncols_grid_shape: "grid_shape g \<Longrightarrow> ncols g = 10"
  by (cases g) (simp_all add: grid_shape_def ncols_def)

lemma nchannels_grid_shape: "grid_shape g \<Longrightarrow> nchannels g = 3"
  by (cases g; cases "hd g") (auto simp: grid_shape_def nchannels_def)

lemma length_zeros: "length (zeros m n k) = m"
  by (simp add: zeros_def)

lemma ncols_zeros: "0 < m \<Longrightarrow> ncols (zeros m n k) = n"
  by (cases m) (simp_all add: zeros_def ncols_def)

lemma nth_zeros: "i < m \<Longrightarrow> j < n \<Longrightarrow> zeros m n k ! i ! j = replicate k 0"
  by (simp add: zeros_def)

lemma nchannels_zeros: "0 < m \<Longrightarrow> 0 < n \<Longrightarrow> nchannels (zeros m n k) = k"
  by (cases m; cases n) (simp_all add: zeros_def nchannels_def)

lemma setitem_block_zeros:
  "setitem_block (zeros 5 5 3) h w shp src =
     (if (fst shp = slice_len 5 0 h \<or> fst shp = 1)
         \<and> (fst (snd shp) = slice_len 5 0 w \<or> fst (snd shp) = 1)
         \<and> (snd (snd shp) = 3 \<or> snd (snd shp) = 1)
      then Inr (map (\<lambda>i. map (\<lambda>j.
                   if i < slice_len 5 0 h \<and> j < slice_len 5 0 w
                   then map (\<lambda>k. src ! (if fst shp = 1 then 0 else i)
                                     ! (if fst (snd shp) = 1 then 0 else j)
                                     ! (if snd (snd shp) = 1 then 0 else k)) [0..<3]
                   else zeros 5 5 3 ! i ! j) [0..<5]) [0..<5])
      else Inl ValueError)"
  unfolding setitem_block_def Let_def
  by (simp only: length_zeros ncols_zeros [of 5] nchannels_zeros [of 5 5] zero_less_numeral)

lemma setitem_block_zeros_shape:
  assumes res: "setitem_block (zeros 5 5 3) h w shp src = Inr P"
  shows "length P = 5 \<and> (\<forall>row \<in> set P. length row = 5 \<and> (\<forall>cell \<in> set row. length cell = 3))"
proof -
  define entry where "entry i j =
     (if i < slice_len 5 0 h \<and> j < slice_len 5 0 w
      then map (\<lambda>k. src ! (if fst shp = 1 then 0 else i)
                        ! (if fst (snd shp) = 1 then 0 else j)
                        ! (if snd (snd shp) = 1 then 0 else k)) [0..<3]
      else zeros 5 5 3 ! i ! j)" for i j
  from res have P: "P = map (\<lambda>i. map (\<lambda>j. entry i j) [0..<5]) [0..<5]"
    unfolding setitem_block_zeros entry_def by (simp split: if_splits)
  have entry_len: "length (entry i j) = 3" if "i < 5" "j < 5" for i j
    using that by (simp add: entry_def nth_zeros)
  have "length P = 5" by (simp add: P)
  moreover have "length row = 5 \<and> (\<forall>cell \<in> set row. length cell = 3)" if "row \<in> set P" for row
  proof -
    from that obtain i where i: "i < 5" and row: "row = map (\<lambda>j. entry i j) [0..<5]"
      by (auto simp: P)
    have "length cell = 3" if "cell \<in> set row" for cell
    proof -
      from that row obtain j where "j < 5" "cell = entry i j" by auto
      with i show ?thesis by (simp add: entry_len)
    qed
    with row show ?thesis by simp
  qed
  ultimately show ?thesis by blast
qed

lemma slice_in_range:
  assumes "0 \<le> lo" "lo \<le> hi" "hi \<le> int n"
  shows "slice_bound n lo = nat lo" and "slice_len n lo hi = nat (hi - lo)"
  using assms by (auto simp: slice_bound_def slice_len_def)

lemma setitem_block_exact:
  assumes "0 \<le> h" "h \<le> 5" "0 \<le> w" "w \<le> 5"
  shows "setitem_block (zeros 5 5 3) h w (nat h, nat w, 3) src =
    Inr (map (\<lambda>i. map (\<lambda>j. if i < nat h \<and> j < nat w
                              then map (\<lambda>k. src ! i ! j ! k) [0..<3]
                              else replicate 3 0)
           [0..<5]) [0..<5])"
proof -
  from assms have th: "slice_len 5 0 h = nat h" and tw: "slice_len 5 0 w = nat w"
    by (auto simp: slice_bound_def slice_len_def)
  have entry: "(if i < nat h \<and> j < nat w
           then map (\<lambda>k. src ! (if nat h = 1 then 0 else i) ! (if nat w = 1 then 0 else j) ! k)
                  [0..<3]
           else zeros 5 5 3 ! i ! j) =
        (if i < nat h \<and> j < nat w then map (\<lambda>k. src ! i ! j ! k) [0..<3] else replicate 3 0)"
    if "i < 5" "j < 5" for i j
    using that by (auto simp: nth_zeros)
  have "setitem_block (zeros 5 5 3) h w (nat h, nat w, 3) src =
      Inr (map (\<lambda>i. map (\<lambda>j. if i < nat h \<and> j < nat w
           then map (\<lambda>k. src ! (if nat h = 1 then 0 else i) ! (if nat w = 1 then 0 else j) ! k)
                  [0..<3]
           else zeros 5 5 3 ! i ! j) [0..<5]) [0..<5])"
    unfolding setitem_block_zeros by (simp add: th tw)
  also have "map (\<lambda>i. map (\<lambda>j. if i < nat h \<and> j < nat w
           then map (\<lambda>k. src ! (if nat h = 1 then 0 else i) ! (if nat w = 1 then 0 else j) ! k)
                  [0..<3]
           else zeros 5 5 3 ! i ! j) [0..<5]) [0..<5] =
      map (\<lambda>i. map (\<lambda>j. if i < nat h \<and> j < nat w then map (\<lambda>k. src ! i ! j ! k) [0..<3]
                          else replicate 3 0)
           [0..<5]) [0..<5]"
    by (intro map_cong refl entry) simp_all
  finally show ?thesis .
qed

lemma nth_slice_rows_cols:
  assumes "grid_shape g"
    and r: "0 \<le> r0" "r0 \<le> r1" "r1 \<le> 10"
    and c: "0 \<le> c0" "c0 \<le> c1" "c1 \<le> 10"
    and i: "int i < r1 - r0" and j: "int j < c1 - c0"
  shows "slice_rows_cols r0 r1 c0 c1 g ! i ! j = g ! (nat r0 + i) ! (nat c0 + j)"
proof -
  have len: "length g = 10" using assms(1) by (simp add: grid_shape_def)
  from r have r': "r1 \<le> int (length g)" by (simp add: len)
  have i1: "i < slice_len (length g) r0 r1"
    using i by (simp add: slice_in_range(2) [OF r(1,2) r'])
  then have i2: "i < length (py_slice r0 r1 g)" by (simp add: length_py_slice)
  have row: "py_slice r0 r1 g ! i = g ! (nat r0 + i)"
    using nth_py_slice [OF i1] by (simp add: slice_in_range(1) [OF r(1,2) r'])
  have "nat r0 + i < 10" using r i by linarith
  then have "g ! (nat r0 + i) \<in> set g" using len by (intro nth_mem) simp
  then have rlen: "length (g ! (nat r0 + i)) = 10" using assms(1) by (simp add: grid_shape_def)
  from c have c': "c1 \<le> int (length (g ! (nat r0 + i)))" by (simp add: rlen)
  have j1: "j < slice_len (length (g ! (nat r0 + i))) c0 c1"
    using j by (simp add: slice_in_range(2) [OF c(1,2) c'])
  have "slice_rows_cols r0 r1 c0 c1 g ! i ! j = py_slice c0 c1 (g ! (nat r0 + i)) ! j"
    using i2 by (simp add: slice_rows_cols_def row)
  also have "\<dots> = g ! (nat r0 + i) ! (nat c0 + j)"
    using nth_py_slice [OF j1] by (simp add: slice_in_range(1) [OF c(1,2) c'])
  finally show ?thesis .
qed

lemma setitem_block_window:
  assumes "grid_shape g"
    and r: "0 \<le> r0" "r0 \<le> r1" "r1 \<le> 10" "r1 - r0 \<le> 5"
    and c: "0 \<le> c0" "c0 \<le> c1" "c1 \<le> 10" "c1 - c0 \<le> 5"
  shows "setitem_block (zeros 5 5 3) (r1 - r0) (c1 - c0) (slice_shape r0 r1 c0 c1 g)
           (slice_rows_cols r0 r1 c0 c1 g) =
         Inr (map (\<lambda>i. map (\<lambda>j. if int i < r1 - r0 \<and> int j < c1 - c0
                                   then g ! (nat r0 + i) ! (nat c0 + j)
                                   else replicate 3 0) [0..<5]) [0..<5])"
proof -
  let ?src = "slice_rows_cols r0 r1 c0 c1 g"
  have shape: "slice_shape r0 r1 c0 c1 g = (nat (r1 - r0), nat (c1 - c0), 3)"
    using assms(1) r c
    by (simp add: slice_shape_def grid_shape_length ncols_grid_shape nchannels_grid_shape
          slice_in_range(2))
  have h: "0 \<le> r1 - r0" using r by simp
  have w: "0 \<le> c1 - c0" using c by simp
  have "setitem_block (zeros 5 5 3) (r1 - r0) (c1 - c0) (slice_shape r0 r1 c0 c1 g) ?src =
      Inr (map (\<lambda>i. map (\<lambda>j. if i < nat (r1 - r0) \<and> j < nat (c1 - c0)
             then map (\<lambda>k. ?src ! i ! j ! k) [0..<3]
             else replicate 3 0) [0..<5]) [0..<5])"
    unfolding shape by (rule setitem_block_exact [OF h r(4) w c(4)])
  also have "map (\<lambda>i. map (\<lambda>j. if i < nat (r1 - r0) \<and> j < nat (c1 - c0)
             then map (\<lambda>k. ?src ! i ! j ! k) [0..<3]
             else replicate 3 0) [0..<5]) [0..<5] =
      map (\<lambda>i. map (\<lambda>j. if int i < r1 - r0 \<and> int j < c1 - c0
             then g ! (nat r0 + i) ! (nat c0 + j)
             else replicate 3 0) [0..<5]) [0..<5]"
  proof (intro map_cong refl)
    fix i j
    show "(if i < nat (r1 - r0) \<and> j < nat (c1 - c0)
           then map (\<lambda>k. ?src ! i ! j ! k) [0..<3] else replicate 3 0) =
        (if int i < r1 - r0 \<and> int j < c1 - c0 then g ! (nat r0 + i) ! (nat c0 + j)
         else replicate 3 0)"
    proof (cases "int i < r1 - r0 \<and> int j < c1 - c0")
      case True
      then have cell: "?src ! i ! j = g ! (nat r0 + i) ! (nat c0 + j)"
        using nth_slice_rows_cols [OF assms(1) r(1-3) c(1-3)] by blast
      from True r c have "nat r0 + i < 10" "nat c0 + j < 10" by linarith+
      with assms(1) have "length (g ! (nat r0 + i) ! (nat c0 + j)) = 3"
        by (rule grid_shape_cell)
      then have "map (\<lambda>k. g ! (nat r0 + i) ! (nat c0 + j) ! k) [0..<3]
          = g ! (nat r0 + i) ! (nat c0 + j)"
        using map_nth [of "g ! (nat r0 + i) ! (nat c0 + j)"] by simp
      with cell have "map (\<lambda>k. ?src ! i ! j ! k) [0..<3] = g ! (nat r0 + i) ! (nat c0 + j)"
        by simp
      moreover from True have "i < nat (r1 - r0) \<and> j < nat (c1 - c0)" by linarith
      ultimately show ?thesis using True by (simp only: if_True)
    next
      case False
      then have "\<not> (i < nat (r1 - r0) \<and> j < nat (c1 - c0))" by linarith
      with False show ?thesis by (simp only: if_False)
    qed
  qed
  finally show ?thesis .
qed

lemma window_bounds:
  assumes "- 30 \<le> (p::int)" "p \<le> 129"
  shows "0 \<le> max 0 (p div 10 - 2)" "max 0 (p div 10 - 2) \<le> min 10 (p div 10 + 3)"
    "min 10 (p div 10 + 3) \<le> 10" "min 10 (p div 10 + 3) - max 0 (p div 10 - 2) \<le> 5"
    "0 \<le> max 0 (p mod 10 - 2)" "max 0 (p mod 10 - 2) \<le> min 10 (p mod 10 + 3)"
    "min 10 (p mod 10 + 3) \<le> 10" "min 10 (p mod 10 + 3) - max 0 (p mod 10 - 2) \<le> 5"
  using assms by auto

text \<open>
  The result of \<open>local_observation\<close> for an agent inside the grid, or up to three rows
  above or below it: the window's bounds then lie in \<open>0..10\<close>.
\<close>

lemma local_observation_in_range:
  assumes "grid_shape g" "agent_pos info = Some p" "- 30 \<le> p" "p \<le> 129"
  shows "local_observation np g info =
    (case getitem ''steps_remaining'' (steps_remaining info) of
       Inl e \<Rightarrow> Inl e
     | Inr s \<Rightarrow>
        (case to_uint8 np s of
           Inl e \<Rightarrow> Inl e
         | Inr steps \<Rightarrow>
            (case getitem ''cells_remaining'' (cells_remaining info) of
               Inl e \<Rightarrow> Inl e
             | Inr c \<Rightarrow>
                (case to_uint8 np c of
                   Inl e \<Rightarrow> Inl e
                 | Inr cells \<Rightarrow> Inr (flatten (spec_padded_window g p) @ [steps] @ [cells])))))"
proof -
  have three: "x + 2 + 1 = x + 3" for x :: int by simp
  note block = setitem_block_window [OF assms(1) window_bounds [OF assms(3,4)]]
  show ?thesis
    unfolding local_observation_def Let_def spec_padded_window_def
    by (simp only: assms(2) getitem_Some sum.case three block)
qed

subsection \<open>The local observation\<close>

lemma nth_spec_padded_window:
  assumes "i < 5" "j < 5"
  shows "spec_padded_window g p ! i ! j =
    (if int i < min 10 (p div 10 + 3) - max 0 (p div 10 - 2)
        \<and> int j < min 10 (p mod 10 + 3) - max 0 (p mod 10 - 2)
     then g ! (nat (max 0 (p div 10 - 2)) + i) ! (nat (max 0 (p mod 10 - 2)) + j)
     else replicate 3 0)"
  using assms unfolding spec_padded_window_def Let_def by simp

lemma spec_padded_window_shape:
  assumes "grid_shape g" "- 30 \<le> p" "p \<le> 129"
  shows "length (spec_padded_window g p) = 5"
    and "\<forall>row \<in> set (spec_padded_window g p). length row = 5 \<and> (\<forall>cell \<in> set row. length cell = 3)"
proof -
  note block = setitem_block_window [OF assms(1) window_bounds [OF assms(2,3)]]
  have "setitem_block (zeros 5 5 3) (min 10 (p div 10 + 3) - max 0 (p div 10 - 2))
          (min 10 (p mod 10 + 3) - max 0 (p mod 10 - 2))
          (slice_shape (max 0 (p div 10 - 2)) (min 10 (p div 10 + 3))
             (max 0 (p mod 10 - 2)) (min 10 (p mod 10 + 3)) g)
          (slice_rows_cols (max 0 (p div 10 - 2)) (min 10 (p div 10 + 3))
             (max 0 (p mod 10 - 2)) (min 10 (p mod 10 + 3)) g) = Inr (spec_padded_window g p)"
    unfolding spec_padded_window_def Let_def by (rule block)
  from setitem_block_zeros_shape [OF this]
  show "length (spec_padded_window g p) = 5"
    and "\<forall>row \<in> set (spec_padded_window g p). length row = 5 \<and> (\<forall>cell \<in> set row. length cell = 3)"
    by simp_all
qed

lemma nth_flatten_spec_padded_window:
  assumes "grid_shape g" "- 30 \<le> p" "p \<le> 129" "i < 5" "j < 5" "k < 3"
  shows "flatten (spec_padded_window g p) ! (15 * i + 3 * j + k) =
    (if int i < min 10 (p div 10 + 3) - max 0 (p div 10 - 2)
        \<and> int j < min 10 (p mod 10 + 3) - max 0 (p mod 10 - 2)
     then g ! (nat (max 0 (p div 10 - 2)) + i) ! (nat (max 0 (p mod 10 - 2)) + j) ! k
     else 0)"
proof -
  note shape = spec_padded_window_shape [OF assms(1-3)]
  have "flatten (spec_padded_window g p) ! ((i * 5 + j) * 3 + k) = spec_padded_window g p ! i ! j ! k"
    using shape(2) _ assms(5,6) by (rule nth_flatten_uniform) (simp add: shape(1) assms(4))
  moreover have "(i * 5 + j) * 3 + k = 15 * i + 3 * j + k" by simp
  ultimately have "flatten (spec_padded_window g p) ! (15 * i + 3 * j + k) = spec_padded_window g p ! i ! j ! k"
    by metis
  with assms(6) show ?thesis
    by (simp add: nth_spec_padded_window [OF assms(4,5)])
qed

lemma length_flatten_spec_padded_window:
  assumes "grid_shape g" "- 30 \<le> p" "p \<le> 129"
  shows "length (flatten (spec_padded_window g p)) = 75"
  using length_flatten_uniform [OF spec_padded_window_shape(2) [OF assms]]
    spec_padded_window_shape(1) [OF assms] by simp

lemma to_uint8_byte: "0 \<le> v \<Longrightarrow> v \<le> 255 \<Longrightarrow> to_uint8 np v = Inr (word_of_int v)"
  by (cases np) (simp_all add: to_uint8_def)

lemma to_uint8_Inr: "to_uint8 np v = Inr b \<Longrightarrow> uint b = v mod 256"
  by (cases np) (auto simp: to_uint8_def uint_word_of_int split: if_splits)

lemma to_uint8_Inl: "to_uint8 np v = Inl e \<Longrightarrow> e = OverflowError"
  by (cases np) (auto simp: to_uint8_def split: if_splits)

lemma local_observation_returns:
  assumes "grid_shape g" "agent_pos info = Some p" "- 30 \<le> p" "p \<le> 129"
    and "steps_remaining info = Some s" "0 \<le> s" "s \<le> 255"
    and "cells_remaining info = Some c" "0 \<le> c" "c \<le> 255"
  shows "local_observation np g info =
    Inr (flatten (spec_padded_window g p) @ [word_of_int s] @ [word_of_int c])"
  unfolding local_observation_in_range [OF assms(1-4)]
  using assms(5-10) by (simp add: to_uint8_byte)

lemma setitem_block_Inl: "setitem_block dst h w shp src = Inl e \<Longrightarrow> e = ValueError"
  by (simp add: setitem_block_def Let_def split: if_splits)

lemma local_observation_no_agent_pos:
  "agent_pos info = None \<Longrightarrow> local_observation np g info = Inl (KeyError ''agent_pos'')"
  by (simp add: local_observation_def)

lemma local_observation_tail:
  assumes "agent_pos info = Some pos"
  obtains (broadcast) "local_observation np g info = Inl ValueError"
  | (tail) P where
      "setitem_block (zeros 5 5 3) (min 10 (pos div 10 + 2 + 1) - max 0 (pos div 10 - 2))
          (min 10 (pos mod 10 + 2 + 1) - max 0 (pos mod 10 - 2))
          (slice_shape (max 0 (pos div 10 - 2)) (min 10 (pos div 10 + 2 + 1))
             (max 0 (pos mod 10 - 2)) (min 10 (pos mod 10 + 2 + 1)) g)
          (slice_rows_cols (max 0 (pos div 10 - 2)) (min 10 (pos div 10 + 2 + 1))
             (max 0 (pos mod 10 - 2)) (min 10 (pos mod 10 + 2 + 1)) g) = Inr P"
      "local_observation np g info =
        (case getitem ''steps_remaining'' (steps_remaining info) of
           Inl e \<Rightarrow> Inl e
         | Inr s \<Rightarrow>
            (case to_uint8 np s of
               Inl e \<Rightarrow> Inl e
             | Inr steps \<Rightarrow>
                (case getitem ''cells_remaining'' (cells_remaining info) of
                   Inl e \<Rightarrow> Inl e
                 | Inr c \<Rightarrow>
                    (case to_uint8 np c of
                       Inl e \<Rightarrow> Inl e
                     | Inr cells \<Rightarrow> Inr (flatten P @ [steps] @ [cells])))))"
proof (cases "setitem_block (zeros 5 5 3) (min 10 (pos div 10 + 2 + 1) - max 0 (pos div 10 - 2))
          (min 10 (pos mod 10 + 2 + 1) - max 0 (pos mod 10 - 2))
          (slice_shape (max 0 (pos div 10 - 2)) (min 10 (pos div 10 + 2 + 1))
             (max 0 (pos mod 10 - 2)) (min 10 (pos mod 10 + 2 + 1)) g)
          (slice_rows_cols (max 0 (pos div 10 - 2)) (min 10 (pos div 10 + 2 + 1))
             (max 0 (pos mod 10 - 2)) (min 10 (pos mod 10 + 2 + 1)) g)")
  case (Inl e)
  then have "local_observation np g info = Inl e"
    unfolding local_observation_def Let_def by (simp only: assms getitem_Some sum.case)
  with setitem_block_Inl [OF Inl] broadcast show ?thesis by simp
next
  case (Inr P)
  then have "local_observation np g info =
        (case getitem ''steps_remaining'' (steps_remaining info) of
           Inl e \<Rightarrow> Inl e
         | Inr s \<Rightarrow>
            (case to_uint8 np s of
               Inl e \<Rightarrow> Inl e
             | Inr steps \<Rightarrow>
                (case getitem ''cells_remaining'' (cells_remaining info) of
                   Inl e \<Rightarrow> Inl e
                 | Inr c \<Rightarrow>
                    (case to_uint8 np c of
                       Inl e \<Rightarrow> Inl e
                     | Inr cells \<Rightarrow> Inr (flatten P @ [steps] @ [cells])))))"
    unfolding local_observation_def Let_def by (simp only: assms getitem_Some sum.case)
  with Inr tail show ?thesis by blast
qed

lemma local_observation_length:
  assumes "grid_shape g" and "local_observation np g info = Inr v"
  shows "length v = 77"
proof (cases "agent_pos info")
  case None
  with assms(2) show ?thesis by (simp add: local_observation_no_agent_pos)
next
  case (Some pos)
  then show ?thesis
  proof (cases rule: local_observation_tail [where np = np and g = g])
    case broadcast
    with assms(2) show ?thesis by simp
  next
    case (tail P)
    from assms(2) obtain steps cells where v: "v = flatten P @ [steps] @ [cells]"
      unfolding tail(2) by (auto split: sum.splits)
    from setitem_block_zeros_shape [OF tail(1)]
    have "length P = 5"
      and "\<forall>row \<in> set P. length row = 5 \<and> (\<forall>cell \<in> set row. length cell = 3)"
      by simp_all
    with length_flatten_uniform [of P 5 3] have "length (flatten P) = 75" by simp
    with v show ?thesis by simp
  qed
qed

lemma local_observation_missing_key:
  assumes "agent_pos info = None \<or> steps_remaining info = None \<or> cells_remaining info = None"
  shows "\<exists>e. local_observation np g info = Inl e"
proof (cases "agent_pos info")
  case None
  then show ?thesis by (simp add: local_observation_no_agent_pos)
next
  case (Some pos)
  then show ?thesis
  proof (cases rule: local_observation_tail [where np = np and g = g])
    case broadcast
    then show ?thesis by simp
  next
    case (tail P)
    from assms Some have "steps_remaining info = None \<or> cells_remaining info = None" by simp
    then show ?thesis
      unfolding tail(2) by (auto split: sum.splits)
  qed
qed

lemma local_observation_errors:
  assumes "local_observation np g info = Inl e"
  shows "e \<in> {KeyError ''agent_pos'', ValueError, KeyError ''steps_remaining'',
               KeyError ''cells_remaining'', OverflowError}"
proof (cases "agent_pos info")
  case None
  with assms show ?thesis by (simp add: local_observation_no_agent_pos)
next
  case (Some pos)
  then show ?thesis
  proof (cases rule: local_observation_tail [where np = np and g = g])
    case broadcast
    with assms show ?thesis by simp
  next
    case (tail P)
    from assms show ?thesis
      unfolding tail(2)
      by (cases "steps_remaining info"; cases "cells_remaining info")
         (auto split: sum.splits dest: to_uint8_Inl)
  qed
qed

text \<open>
  C1. For a grid of shape (10, 10, 3) and an agent position \<open>p\<close> in \<open>0..99\<close>, the window
  runs from \<open>row_min = max 0 (p div 10 - 2)\<close> to \<open>row_max = min 10 (p div 10 + 3)\<close>, and
  likewise for the columns; these bounds lie inside \<open>0..10\<close>, so the slice reads only
  rows and columns of the grid. Whenever \<open>local_observation\<close> returns, the entry
  \<open>15 i + 3 j + k\<close> of the result (row \<open>i\<close>, column \<open>j\<close>, channel \<open>k\<close> of the 5 by 5 by 3
  buffer) is the grid's entry at row \<open>row_min + i\<close> and column \<open>col_min + j\<close> when
  \<open>(i, j)\<close> lies in the window, and zero otherwise; and it does return when the two
  scalars are present and lie in \<open>0..255\<close>. The witness evaluates the corners 0 and 99.
\<close>

theorem local_observation_window:
  assumes "grid_shape grid" "agent_pos info = Some p" "0 \<le> p" "p \<le> 99"
    and "row_min = max 0 (p div 10 - 2)" "row_max = min 10 (p div 10 + 3)"
    and "col_min = max 0 (p mod 10 - 2)" "col_max = min 10 (p mod 10 + 3)"
  shows "0 \<le> row_min \<and> row_min < row_max \<and> row_max \<le> 10
    \<and> 0 \<le> col_min \<and> col_min < col_max \<and> col_max \<le> 10
    \<and> (\<forall>v. local_observation np grid info = Inr v \<longrightarrow>
          (\<forall>i<5. \<forall>j<5. \<forall>k<3. v ! (15 * i + 3 * j + k) =
             (if int i < row_max - row_min \<and> int j < col_max - col_min
              then grid ! (nat row_min + i) ! (nat col_min + j) ! k else 0)))
    \<and> (\<forall>s c. steps_remaining info = Some s \<and> cells_remaining info = Some c
          \<and> 0 \<le> s \<and> s \<le> 255 \<and> 0 \<le> c \<and> c \<le> 255 \<longrightarrow>
          (\<exists>v. local_observation np grid info = Inr v))"
proof -
  from assms(3,4) have near: "- 30 \<le> p" "p \<le> 129" by simp_all
  note result = local_observation_in_range [OF assms(1,2) near, of np]
  have bounds: "0 \<le> row_min \<and> row_min < row_max \<and> row_max \<le> 10
    \<and> 0 \<le> col_min \<and> col_min < col_max \<and> col_max \<le> 10"
    using assms(3,4) unfolding assms(5-8) by auto
  have content: "v ! (15 * i + 3 * j + k) =
             (if int i < row_max - row_min \<and> int j < col_max - col_min
              then grid ! (nat row_min + i) ! (nat col_min + j) ! k else 0)"
    if v: "local_observation np grid info = Inr v" and ijk: "i < 5" "j < 5" "k < 3" for v i j k
  proof -
    from v obtain steps cells where "v = flatten (spec_padded_window grid p) @ [steps] @ [cells]"
      unfolding result by (auto split: sum.splits)
    moreover have "15 * i + 3 * j + k < 75" using ijk by simp
    ultimately have "v ! (15 * i + 3 * j + k) = flatten (spec_padded_window grid p) ! (15 * i + 3 * j + k)"
      by (simp add: nth_append length_flatten_spec_padded_window [OF assms(1) near])
    then show ?thesis
      unfolding assms(5-8) by (simp only: nth_flatten_spec_padded_window [OF assms(1) near ijk])
  qed
  have returns: "\<exists>v. local_observation np grid info = Inr v"
    if "steps_remaining info = Some s" "cells_remaining info = Some c"
      "0 \<le> s" "s \<le> 255" "0 \<le> c" "c \<le> 255" for s c
    unfolding result using that by (simp add: to_uint8_byte)
  from bounds content returns show ?thesis by blast
qed

theorem local_observation_window_witness:
  "grid_shape sample_grid
   \<and> agent_pos (mk_info 0 7 9 False False []) = Some 0
   \<and> local_observation NumPy2 sample_grid (mk_info 0 7 9 False False []) =
     Inr [1, 1, 1, 2, 1, 2, 3, 1, 3, 0, 0, 0, 0, 0, 0,
          11, 2, 1, 12, 2, 2, 13, 2, 3, 0, 0, 0, 0, 0, 0,
          21, 3, 1, 22, 3, 2, 23, 3, 3, 0, 0, 0, 0, 0, 0,
          0, 0, 0, 0, 0, 0, 0, 0, 0, 0, 0, 0, 0, 0, 0,
          0, 0, 0, 0, 0, 0, 0, 0, 0, 0, 0, 0, 0, 0, 0, 7, 9]
   \<and> agent_pos (mk_info 99 7 9 False False []) = Some 99
   \<and> local_observation NumPy2 sample_grid (mk_info 99 7 9 False False []) =
     Inr [78, 8, 8, 79, 8, 9, 80, 8, 10, 0, 0, 0, 0, 0, 0,
          88, 9, 8, 89, 9, 9, 90, 9, 10, 0, 0, 0, 0, 0, 0,
          98, 10, 8, 99, 10, 9, 100, 10, 10, 0, 0, 0, 0, 0, 0,
          0, 0, 0, 0, 0, 0, 0, 0, 0, 0, 0, 0, 0, 0, 0,
          0, 0, 0, 0, 0, 0, 0, 0, 0, 0, 0, 0, 0, 0, 0, 7, 9]"
proof -
  have shape: "grid_shape sample_grid" by code_simp
  have first: "local_observation NumPy2 sample_grid (mk_info 0 7 9 False False []) =
     Inr [1, 1, 1, 2, 1, 2, 3, 1, 3, 0, 0, 0, 0, 0, 0,
          11, 2, 1, 12, 2, 2, 13, 2, 3, 0, 0, 0, 0, 0, 0,
          21, 3, 1, 22, 3, 2, 23, 3, 3, 0, 0, 0, 0, 0, 0,
          0, 0, 0, 0, 0, 0, 0, 0, 0, 0, 0, 0, 0, 0, 0,
          0, 0, 0, 0, 0, 0, 0, 0, 0, 0, 0, 0, 0, 0, 0, 7, 9]" by code_simp
  have last: "local_observation NumPy2 sample_grid (mk_info 99 7 9 False False []) =
     Inr [78, 8, 8, 79, 8, 9, 80, 8, 10, 0, 0, 0, 0, 0, 0,
          88, 9, 8, 89, 9, 9, 90, 9, 10, 0, 0, 0, 0, 0, 0,
          98, 10, 8, 99, 10, 9, 100, 10, 10, 0, 0, 0, 0, 0, 0,
          0, 0, 0, 0, 0, 0, 0, 0, 0, 0, 0, 0, 0, 0, 0,
          0, 0, 0, 0, 0, 0, 0, 0, 0, 0, 0, 0, 0, 0, 0, 7, 9]" by code_simp
  have pos: "agent_pos (mk_info 0 7 9 False False []) = Some 0"
    "agent_pos (mk_info 99 7 9 False False []) = Some 99"
    by (simp_all add: mk_info_def)
  have range: "(0::int) \<le> 0" "(0::int) \<le> 99" "(99::int) \<le> 99" by simp_all
  note corner0 = local_observation_window [where np = NumPy2, OF shape pos(1) range(1,2)
      refl refl refl refl, THEN conjunct1]
  note corner99 = local_observation_window [where np = NumPy2, OF shape pos(2) range(2,3)
      refl refl refl refl, THEN conjunct1]
  from corner0 corner99 shape pos first last show ?thesis by blast
qed

text \<open>
  C3, as the specification states it, fails: with \<^verbatim>\<open>steps_remaining\<close> = 300 the element
  at index 75 is 44 under NumPy 1.x (300 modulo 256) and the call raises
  \<^verbatim>\<open>OverflowError\<close> under NumPy 2.x; clamping would give 255.
\<close>

theorem local_observation_not_clamped:
  "\<not> scalars_clamped NumPy1 sample_grid (mk_info 0 300 9 False False [])
   \<and> \<not> scalars_clamped NumPy2 sample_grid (mk_info 0 300 9 False False [])
   \<and> local_observation NumPy1 sample_grid (mk_info 0 300 9 False False []) =
     Inr [1, 1, 1, 2, 1, 2, 3, 1, 3, 0, 0, 0, 0, 0, 0,
          11, 2, 1, 12, 2, 2, 13, 2, 3, 0, 0, 0, 0, 0, 0,
          21, 3, 1, 22, 3, 2, 23, 3, 3, 0, 0, 0, 0, 0, 0,
          0, 0, 0, 0, 0, 0, 0, 0, 0, 0, 0, 0, 0, 0, 0,
          0, 0, 0, 0, 0, 0, 0, 0, 0, 0, 0, 0, 0, 0, 0, 44, 9]
   \<and> local_observation NumPy2 sample_grid (mk_info 0 300 9 False False []) = Inl OverflowError
   \<and> clamp_u8 300 = 255"
  by code_simp

text \<open>
  C3, amended. For a grid of shape (10, 10, 3), an agent position in \<open>0..99\<close> and both
  scalars present: when both scalars lie in \<open>0..255\<close>, \<open>local_observation\<close> returns 77
  elements whose elements 75 and 76 are \<^verbatim>\<open>steps_remaining\<close> and \<^verbatim>\<open>cells_remaining\<close>.
  A scalar outside \<open>0..255\<close> is not clamped: whenever a vector is returned it has 77
  elements and the last two are the scalars modulo 256, the only exception raised is
  \<^verbatim>\<open>OverflowError\<close>, and NumPy 2.x raises it whenever a scalar is outside \<open>0..255\<close>.
\<close>

theorem local_observation_scalars:
  assumes "grid_shape grid" "agent_pos info = Some p" "0 \<le> p" "p \<le> 99"
    and "steps_remaining info = Some s" "cells_remaining info = Some c"
  shows "(0 \<le> s \<and> s \<le> 255 \<and> 0 \<le> c \<and> c \<le> 255 \<longrightarrow>
      (\<exists>v. local_observation np grid info = Inr v \<and> length v = 77
           \<and> uint (v ! 75) = s \<and> uint (v ! 76) = c))
    \<and> (\<forall>v. local_observation np grid info = Inr v \<longrightarrow>
          length v = 77 \<and> uint (v ! 75) = s mod 256 \<and> uint (v ! 76) = c mod 256)
    \<and> (\<forall>e. local_observation np grid info = Inl e \<longrightarrow> e = OverflowError)
    \<and> (\<not> (0 \<le> s \<and> s \<le> 255 \<and> 0 \<le> c \<and> c \<le> 255) \<longrightarrow>
          local_observation NumPy2 grid info = Inl OverflowError)"
proof -
  from assms(3,4) have near: "- 30 \<le> p" "p \<le> 129" by simp_all
  note len = length_flatten_spec_padded_window [OF assms(1) near]
  have result: "local_observation np grid info =
    (case to_uint8 np s of
       Inl e \<Rightarrow> Inl e
     | Inr steps \<Rightarrow>
        (case to_uint8 np c of
           Inl e \<Rightarrow> Inl e
         | Inr cells \<Rightarrow> Inr (flatten (spec_padded_window grid p) @ [steps] @ [cells])))" for np
    unfolding local_observation_in_range [OF assms(1,2) near]
    by (simp add: assms(5,6) split: sum.splits)
  have any: "length v = 77 \<and> uint (v ! 75) = s mod 256 \<and> uint (v ! 76) = c mod 256"
    if "local_observation np grid info = Inr v" for v
  proof -
    from that obtain steps cells where s: "to_uint8 np s = Inr steps" and c: "to_uint8 np c = Inr cells"
      and v: "v = flatten (spec_padded_window grid p) @ [steps] @ [cells]"
      unfolding result by (auto split: sum.splits)
    from v len have "length v = 77" "v ! 75 = steps" "v ! 76 = cells"
      by (simp_all add: nth_append)
    with to_uint8_Inr [OF s] to_uint8_Inr [OF c] show ?thesis by simp
  qed
  have byte: "\<exists>v. local_observation np grid info = Inr v \<and> length v = 77
           \<and> uint (v ! 75) = s \<and> uint (v ! 76) = c"
    if "0 \<le> s" "s \<le> 255" "0 \<le> c" "c \<le> 255"
  proof -
    from that have "local_observation np grid info =
        Inr (flatten (spec_padded_window grid p) @ [word_of_int s] @ [word_of_int c])"
      unfolding result by (simp add: to_uint8_byte)
    with any that show ?thesis by auto
  qed
  have err: "e = OverflowError" if "local_observation np grid info = Inl e" for e
    using that unfolding result by (auto split: sum.splits dest: to_uint8_Inl)
  have strict: "local_observation NumPy2 grid info = Inl OverflowError"
    if "\<not> (0 \<le> s \<and> s \<le> 255 \<and> 0 \<le> c \<and> c \<le> 255)"
    using that unfolding result by (auto simp: to_uint8_def)
  from any byte err strict show ?thesis by blast
qed

theorem local_observation_scalars_witness:
  "grid_shape sample_grid
   \<and> local_observation NumPy1 sample_grid (mk_info 99 200 9 False False []) =
     Inr [78, 8, 8, 79, 8, 9, 80, 8, 10, 0, 0, 0, 0, 0, 0,
          88, 9, 8, 89, 9, 9, 90, 9, 10, 0, 0, 0, 0, 0, 0,
          98, 10, 8, 99, 10, 9, 100, 10, 10, 0, 0, 0, 0, 0, 0,
          0, 0, 0, 0, 0, 0, 0, 0, 0, 0, 0, 0, 0, 0, 0,
          0, 0, 0, 0, 0, 0, 0, 0, 0, 0, 0, 0, 0, 0, 0, 200, 9]
   \<and> local_observation NumPy2 sample_grid (mk_info 99 200 256 False False []) = Inl OverflowError"
proof -
  have shape: "grid_shape sample_grid" by code_simp
  have first: "local_observation NumPy1 sample_grid (mk_info 99 200 9 False False []) =
     Inr [78, 8, 8, 79, 8, 9, 80, 8, 10, 0, 0, 0, 0, 0, 0,
          88, 9, 8, 89, 9, 9, 90, 9, 10, 0, 0, 0, 0, 0, 0,
          98, 10, 8, 99, 10, 9, 100, 10, 10, 0, 0, 0, 0, 0, 0,
          0, 0, 0, 0, 0, 0, 0, 0, 0, 0, 0, 0, 0, 0, 0,
          0, 0, 0, 0, 0, 0, 0, 0, 0, 0, 0, 0, 0, 0, 0, 200, 9]" by code_simp
  have info: "agent_pos (mk_info 99 200 9 False False []) = Some 99"
    "steps_remaining (mk_info 99 200 9 False False []) = Some 200"
    "cells_remaining (mk_info 99 200 9 False False []) = Some 9"
    "agent_pos (mk_info 99 200 256 False False []) = Some 99"
    "steps_remaining (mk_info 99 200 256 False False []) = Some 200"
    "cells_remaining (mk_info 99 200 256 False False []) = Some 256"
    by (simp_all add: mk_info_def)
  have "local_observation NumPy2 sample_grid (mk_info 99 200 256 False False []) = Inl OverflowError"
    using local_observation_scalars [where np = NumPy2, OF shape info(4) _ _ info(5,6),
         THEN conjunct2, THEN conjunct2, THEN conjunct2]
    by simp
  moreover have "\<exists>v. local_observation NumPy1 sample_grid (mk_info 99 200 9 False False []) = Inr v
      \<and> length v = 77 \<and> uint (v ! 75) = 200 \<and> uint (v ! 76) = 9"
    using local_observation_scalars [where np = NumPy1, OF shape info(1) _ _ info(2,3),
         THEN conjunct1]
    by simp
  ultimately show ?thesis
    using shape first by (simp only: simp_thms)
qed

text \<open>
  C8, as the specification states it, fails: the agent position 100 is outside
  \<open>0..99\<close>, and \<open>local_observation\<close> returns a vector for it, built from the rows 8
  and 9 of the grid.
\<close>

theorem local_observation_accepts_100:
  "\<not> isl (local_observation NumPy2 sample_grid (mk_info 100 7 9 False False []))
   \<and> local_observation NumPy2 sample_grid (mk_info 100 7 9 False False []) =
     Inr [81, 9, 1, 82, 9, 2, 83, 9, 3, 0, 0, 0, 0, 0, 0,
          91, 10, 1, 92, 10, 2, 93, 10, 3, 0, 0, 0, 0, 0, 0,
          0, 0, 0, 0, 0, 0, 0, 0, 0, 0, 0, 0, 0, 0, 0,
          0, 0, 0, 0, 0, 0, 0, 0, 0, 0, 0, 0, 0, 0, 0,
          0, 0, 0, 0, 0, 0, 0, 0, 0, 0, 0, 0, 0, 0, 0, 7, 9]"
  by code_simp

text \<open>
  C8, amended. \<open>local_observation\<close> validates nothing itself. A missing
  \<^verbatim>\<open>agent_pos\<close> raises \<^verbatim>\<open>KeyError\<close> for that key, and a call with any of the three keys it
  reads missing ends in an exception. An agent position outside \<open>0..99\<close> is not
  rejected: for every position in \<open>-30..129\<close>, with both scalars in \<open>0..255\<close>, a vector
  of 77 elements is returned. For any input, a returned vector has 77 elements, and the
  only exceptions are the three \<^verbatim>\<open>KeyError\<close>s, NumPy's \<^verbatim>\<open>ValueError\<close> (the sliced patch
  does not fit the buffer's region) and \<^verbatim>\<open>OverflowError\<close>.
\<close>

theorem local_observation_unchecked:
  "(agent_pos info = None \<longrightarrow> local_observation np grid info = Inl (KeyError ''agent_pos''))
   \<and> (agent_pos info = None \<or> steps_remaining info = None \<or> cells_remaining info = None \<longrightarrow>
        (\<exists>e. local_observation np grid info = Inl e))
   \<and> (grid_shape grid \<and> agent_pos info = Some p \<and> - 30 \<le> p \<and> p \<le> 129
       \<and> steps_remaining info = Some s \<and> 0 \<le> s \<and> s \<le> 255
       \<and> cells_remaining info = Some c \<and> 0 \<le> c \<and> c \<le> 255 \<longrightarrow>
        (\<exists>v. local_observation np grid info = Inr v \<and> length v = 77))
   \<and> (grid_shape grid \<longrightarrow> (\<forall>v. local_observation np grid info = Inr v \<longrightarrow> length v = 77))
   \<and> (\<forall>e. local_observation np grid info = Inl e \<longrightarrow>
        e \<in> {KeyError ''agent_pos'', ValueError, KeyError ''steps_remaining'',
             KeyError ''cells_remaining'', OverflowError})"
proof -
  have accepted: "\<exists>v. local_observation np grid info = Inr v \<and> length v = 77"
    if "grid_shape grid" "agent_pos info = Some p" "- 30 \<le> p" "p \<le> 129"
       "steps_remaining info = Some s" "0 \<le> s" "s \<le> 255"
       "cells_remaining info = Some c" "0 \<le> c" "c \<le> 255"
    using local_observation_returns [OF that, of np] local_observation_length [OF that(1)]
    by blast
  from accepted local_observation_no_agent_pos [of info np grid]
    local_observation_missing_key [of info np grid]
    local_observation_length [of grid np info]
    local_observation_errors [of np grid info]
  show ?thesis by blast
qed

theorem local_observation_unchecked_witness:
  "agent_pos ((mk_info 0 7 9 False False [])\<lparr>agent_pos := None\<rparr>) = None
   \<and> local_observation NumPy2 sample_grid ((mk_info 0 7 9 False False [])\<lparr>agent_pos := None\<rparr>)
      = Inl (KeyError ''agent_pos'')
   \<and> local_observation NumPy2 sample_grid
        ((mk_info 0 7 9 False False [])\<lparr>cells_remaining := None\<rparr>)
      = Inl (KeyError ''cells_remaining'')
   \<and> grid_shape sample_grid
   \<and> local_observation NumPy2 sample_grid (mk_info (- 50) 7 9 False False []) = Inl ValueError
   \<and> local_observation NumPy2 sample_grid (mk_info 100 7 9 False False []) =
     Inr [81, 9, 1, 82, 9, 2, 83, 9, 3, 0, 0, 0, 0, 0, 0,
          91, 10, 1, 92, 10, 2, 93, 10, 3, 0, 0, 0, 0, 0, 0,
          0, 0, 0, 0, 0, 0, 0, 0, 0, 0, 0, 0, 0, 0, 0,
          0, 0, 0, 0, 0, 0, 0, 0, 0, 0, 0, 0, 0, 0, 0,
          0, 0, 0, 0, 0, 0, 0, 0, 0, 0, 0, 0, 0, 0, 0, 7, 9]"
proof -
  have missing: "agent_pos ((mk_info 0 7 9 False False [])\<lparr>agent_pos := None\<rparr>) = None"
    by (simp add: mk_info_def)
  have no_pos: "local_observation NumPy2 sample_grid
      ((mk_info 0 7 9 False False [])\<lparr>agent_pos := None\<rparr>) = Inl (KeyError ''agent_pos'')"
    using local_observation_unchecked [of "(mk_info 0 7 9 False False [])\<lparr>agent_pos := None\<rparr>"
        NumPy2 sample_grid, THEN conjunct1] missing
    by blast
  have no_cells: "local_observation NumPy2 sample_grid
      ((mk_info 0 7 9 False False [])\<lparr>cells_remaining := None\<rparr>)
      = Inl (KeyError ''cells_remaining'')"
    by code_simp
  have above: "local_observation NumPy2 sample_grid (mk_info (- 50) 7 9 False False [])
      = Inl ValueError"
    by code_simp
  have below: "local_observation NumPy2 sample_grid (mk_info 100 7 9 False False []) =
     Inr [81, 9, 1, 82, 9, 2, 83, 9, 3, 0, 0, 0, 0, 0, 0,
          91, 10, 1, 92, 10, 2, 93, 10, 3, 0, 0, 0, 0, 0, 0,
          0, 0, 0, 0, 0, 0, 0, 0, 0, 0, 0, 0, 0, 0, 0,
          0, 0, 0, 0, 0, 0, 0, 0, 0, 0, 0, 0, 0, 0, 0,
          0, 0, 0, 0, 0, 0, 0, 0, 0, 0, 0, 0, 0, 0, 0, 7, 9]"
    by code_simp
  from missing no_pos no_cells grid_shape_sample above below show ?thesis by blast
qed

subsection \<open>The observation hook\<close>




text \<open>
  C7, as the specification states it, fails: in the mode \<^verbatim>\<open>local\<close> with a cached info
  whose \<^verbatim>\<open>steps_remaining\<close> is 300, \<open>observation\<close> under NumPy 2.x returns no vector at
  all but raises \<^verbatim>\<open>OverflowError\<close>; under NumPy 1.x it returns 77 elements.
\<close>

theorem observation_cached_overflow:
  "CURRENT_OBS_MODE
     (initial_state\<lparr>CURRENT_OBS_MODE := ''local'',
                     LAST_INFO := Some (mk_info 0 300 9 False False [])\<rparr>) = ''local''
   \<and> LAST_INFO
     (initial_state\<lparr>CURRENT_OBS_MODE := ''local'',
                     LAST_INFO := Some (mk_info 0 300 9 False False [])\<rparr>)
     = Some (mk_info 0 300 9 False False [])
   \<and> observation NumPy2
        (initial_state\<lparr>CURRENT_OBS_MODE := ''local'',
                        LAST_INFO := Some (mk_info 0 300 9 False False [])\<rparr>) sample_grid
     = Inl OverflowError
   \<and> observation NumPy1
        (initial_state\<lparr>CURRENT_OBS_MODE := ''local'',
                        LAST_INFO := Some (mk_info 0 300 9 False False [])\<rparr>) sample_grid
     = Inr [1, 1, 1, 2, 1, 2, 3, 1, 3, 0, 0, 0, 0, 0, 0,
          11, 2, 1, 12, 2, 2, 13, 2, 3, 0, 0, 0, 0, 0, 0,
          21, 3, 1, 22, 3, 2, 23, 3, 3, 0, 0, 0, 0, 0, 0,
          0, 0, 0, 0, 0, 0, 0, 0, 0, 0, 0, 0, 0, 0, 0,
          0, 0, 0, 0, 0, 0, 0, 0, 0, 0, 0, 0, 0, 0, 0, 44, 9]"
proof -
  have raised: "local_observation NumPy2 sample_grid (mk_info 0 300 9 False False [])
      = Inl OverflowError"
    by code_simp
  have wrapped: "local_observation NumPy1 sample_grid (mk_info 0 300 9 False False [])
      = Inr [1, 1, 1, 2, 1, 2, 3, 1, 3, 0, 0, 0, 0, 0, 0,
          11, 2, 1, 12, 2, 2, 13, 2, 3, 0, 0, 0, 0, 0, 0,
          21, 3, 1, 22, 3, 2, 23, 3, 3, 0, 0, 0, 0, 0, 0,
          0, 0, 0, 0, 0, 0, 0, 0, 0, 0, 0, 0, 0, 0, 0,
          0, 0, 0, 0, 0, 0, 0, 0, 0, 0, 0, 0, 0, 0, 0, 44, 9]"
    by code_simp
  from raised wrapped show ?thesis
    by (simp add: observation_def initial_state_def)
qed



subsection \<open>The cached info is never cleared\<close>

lemma after_call_LAST_INFO:
  "LAST_INFO (after_call st c) = (case c of Call_reward info \<Rightarrow> Some info | _ \<Rightarrow> LAST_INFO st)"
  by (cases c) (simp_all add: reward_def Let_def)

lemma after_calls_Nil: "after_calls st [] = st"
  by (simp add: after_calls_def)

lemma after_calls_Cons: "after_calls st (c # cs) = after_calls (after_call st c) cs"
  by (simp add: after_calls_def)

lemma after_calls_append: "after_calls st (cs @ ds) = after_calls (after_calls st cs) ds"
  by (simp add: after_calls_def)

lemma after_calls_keeps_LAST_INFO:
  "LAST_INFO st \<noteq> None \<Longrightarrow> LAST_INFO (after_calls st cs) \<noteq> None"
proof (induction cs arbitrary: st)
  case Nil
  then show ?case by (simp add: after_calls_Nil)
next
  case (Cons c cs)
  from Cons.prems have "LAST_INFO (after_call st c) \<noteq> None"
    by (simp add: after_call_LAST_INFO split: call.splits)
  then show ?case unfolding after_calls_Cons by (rule Cons.IH)
qed

text \<open>
  C10. No call clears \<^verbatim>\<open>LAST_INFO\<close>: a call of \<open>reward\<close> sets it to the new info and every
  other call leaves it as it is, so once it holds a value it holds one after any
  sequence of calls. After a sequence that contains a call of \<open>reward\<close>, \<open>observation\<close>
  in the mode \<^verbatim>\<open>local\<close> is \<open>local_observation\<close> on the cached info and never the
  flattened grid: the fallback is only possible before the first call of \<open>reward\<close>.
\<close>

theorem last_info_never_cleared:
  "(LAST_INFO st \<noteq> None \<longrightarrow> LAST_INFO (after_calls st cs) \<noteq> None)
   \<and> LAST_INFO (after_call st (Call_reward info)) = Some info
   \<and> ((\<forall>i. c \<noteq> Call_reward i) \<longrightarrow> LAST_INFO (after_call st c) = LAST_INFO st)
   \<and> (Call_reward info \<in> set cs \<longrightarrow> LAST_INFO (after_calls st cs) \<noteq> None)
   \<and> (Call_reward info \<in> set cs \<and> CURRENT_OBS_MODE (after_calls st cs) = ''local'' \<longrightarrow>
        (\<exists>cached. LAST_INFO (after_calls st cs) = Some cached
           \<and> observation np (after_calls st cs) grid = local_observation np grid cached))"
proof -
  have keep: "LAST_INFO (after_calls st cs) \<noteq> None" if "LAST_INFO st \<noteq> None"
    using that by (rule after_calls_keeps_LAST_INFO)
  have set: "LAST_INFO (after_call st (Call_reward info)) = Some info"
    by (simp add: reward_def Let_def)
  have other: "LAST_INFO (after_call st c) = LAST_INFO st" if "\<forall>i. c \<noteq> Call_reward i"
    using that by (cases c) simp_all
  have after: "LAST_INFO (after_calls st cs) \<noteq> None" if "Call_reward info \<in> set cs"
  proof -
    from that obtain xs ys where "cs = xs @ Call_reward info # ys"
      by (auto dest: split_list)
    then have "after_calls st cs = after_calls (after_call (after_calls st xs) (Call_reward info)) ys"
      by (simp add: after_calls_append after_calls_Cons)
    moreover have "LAST_INFO (after_call (after_calls st xs) (Call_reward info)) \<noteq> None"
      by (simp add: reward_def Let_def)
    ultimately show ?thesis by (simp add: after_calls_keeps_LAST_INFO)
  qed
  have local: "\<exists>cached. LAST_INFO (after_calls st cs) = Some cached
           \<and> observation np (after_calls st cs) grid = local_observation np grid cached"
    if "Call_reward info \<in> set cs" "CURRENT_OBS_MODE (after_calls st cs) = ''local''"
  proof -
    from after [OF that(1)] obtain cached where "LAST_INFO (after_calls st cs) = Some cached"
      by auto
    with that(2) show ?thesis by (simp add: observation_def)
  qed
  from keep set other after local show ?thesis by blast
qed

theorem last_info_never_cleared_witness:
  "Call_reward (mk_info 0 7 9 False False [])
     \<in> set [Set_obs_mode ''local'', Call_observation sample_grid,
            Call_reward (mk_info 0 7 9 False False []), Call_observation sample_grid,
            Call_reward_time_pressure (mk_info 1 6 9 True False []),
            Set_reward_mode ''proximity'', Call_observation sample_grid]
   \<and> LAST_INFO (after_calls initial_state
        [Set_obs_mode ''local'', Call_observation sample_grid,
         Call_reward (mk_info 0 7 9 False False []), Call_observation sample_grid,
         Call_reward_time_pressure (mk_info 1 6 9 True False []),
         Set_reward_mode ''proximity'', Call_observation sample_grid])
      = Some (mk_info 0 7 9 False False [])
   \<and> LAST_INFO (after_calls initial_state
        [Set_obs_mode ''local'', Call_observation sample_grid,
         Call_reward (mk_info 0 7 9 False False []), Call_observation sample_grid,
         Call_reward_time_pressure (mk_info 1 6 9 True False []),
         Set_reward_mode ''proximity'', Call_observation sample_grid]) \<noteq> None"
proof -
  let ?cs = "[Set_obs_mode ''local'', Call_observation sample_grid,
         Call_reward (mk_info 0 7 9 False False []), Call_observation sample_grid,
         Call_reward_time_pressure (mk_info 1 6 9 True False []),
         Set_reward_mode ''proximity'', Call_observation sample_grid]"
  have member: "Call_reward (mk_info 0 7 9 False False []) \<in> set ?cs" by simp
  have evaluated: "LAST_INFO (after_calls initial_state ?cs) = Some (mk_info 0 7 9 False False [])"
    by (simp add: after_calls_def reward_def Let_def)
  have "LAST_INFO (after_calls initial_state ?cs) \<noteq> None"
    using last_info_never_cleared [of initial_state ?cs "mk_info 0 7 9 False False []",
        THEN conjunct2, THEN conjunct2, THEN conjunct2, THEN conjunct1] member
    by blast
  with member evaluated show ?thesis by blast
qed

end
